theory Spec2Isabelle
  imports Complex_Main "HOL-Library.AList" "HOL-Library.Log_Nat"
begin

section \<open>Python values used by the cashier system\<close>

text \<open>
  The program is Python. Its integers are unbounded (\<open>int\<close>), its exceptions are
  values of \<open>py_error\<close> (every \<^verbatim>\<open>raise ValueError(...)\<close> of the source is an
  \<open>Inl\<close> branch of the model), and its dictionaries are association lists in
  insertion order (\<open>AList.update\<close> overwrites a key in place and appends a new
  key at the end, as a Python dict does).
\<close>

datatype py_error = ValueError string | KeyError

subsection \<open>Binary floating point\<close>

text \<open>
  Discount and tax rates are Python floats (IEEE binary64) and every amount is
  computed as \<^verbatim>\<open>int(amount * rate)\<close>. A float is modelled by the rational
  number it denotes. \<open>round53\<close> rounds a rational to the nearest number with a
  53-bit significand, ties to even: it is applied where Python rounds, that is
  when a decimal literal is read (\<open>float_lit\<close>), when an int is converted for a
  mixed product (\<open>float_of_int\<close>) and after the product (\<open>float_mul\<close>).
  The exponent range of binary64 is not modelled: an int above about
  \<open>1.8 * 10^308\<close> raises OverflowError in Python when converted, and no amount
  of that size is considered here.
\<close>

type_synonym pyfloat = rat

definition round_half_even :: "rat \<Rightarrow> int" where
  "round_half_even x =
     (let f = \<lfloor>x\<rfloor>; d = x - of_int f in
      if d < 1 / 2 then f
      else if 1 / 2 < d then f + 1
      else if even f then f else f + 1)"

text \<open>\<open>ilog2 q\<close> is the binary exponent of a positive rational: \<open>2^e \<le> q < 2^(e+1)\<close>.\<close>

definition ilog2 :: "rat \<Rightarrow> int" where
  "ilog2 q =
     (let a = fst (quotient_of q); b = snd (quotient_of q); d = bitlen a - bitlen b
      in if 2 powi d \<le> q then d else d - 1)"

definition round53 :: "rat \<Rightarrow> pyfloat" where
  "round53 q =
     (if q = 0 then 0
      else let u = 2 powi (ilog2 \<bar>q\<bar> - 52)
           in sgn q * of_int (round_half_even (\<bar>q\<bar> / u)) * u)"

definition float_lit :: "rat \<Rightarrow> pyfloat" where
  "float_lit q = round53 q"

definition float_of_int :: "int \<Rightarrow> pyfloat" where
  "float_of_int n = round53 (of_int n)"

definition float_mul :: "pyfloat \<Rightarrow> pyfloat \<Rightarrow> pyfloat" where
  "float_mul a b = round53 (a * b)"

text \<open>Python's \<^verbatim>\<open>int(x)\<close> on a float truncates towards zero.\<close>

definition int_of_float :: "pyfloat \<Rightarrow> int" where
  "int_of_float x = (if 0 \<le> x then \<lfloor>x\<rfloor> else \<lceil>x\<rceil>)"

text \<open>\<^verbatim>\<open>int(n * r)\<close> for an int \<open>n\<close> and a float \<open>r\<close>.\<close>

definition int_times_float :: "int \<Rightarrow> pyfloat \<Rightarrow> int" where
  "int_times_float n r = int_of_float (float_mul (float_of_int n) r)"

subsection \<open>Strings\<close>

text \<open>
  Names are ASCII strings. \<^verbatim>\<open>str.strip()\<close> removes leading and trailing
  white space and \<^verbatim>\<open>str.lower()\<close> maps \<open>A..Z\<close> to \<open>a..z\<close>.
\<close>

definition is_space :: "char \<Rightarrow> bool" where
  "is_space c = (let n = (of_char c :: nat) in (9 \<le> n \<and> n \<le> 13) \<or> (28 \<le> n \<and> n \<le> 32))"

definition py_strip :: "string \<Rightarrow> string" where
  "py_strip s = rev (dropWhile is_space (rev (dropWhile is_space s)))"

definition py_lower :: "string \<Rightarrow> string" where
  "py_lower s =
     map (\<lambda>c. let n = (of_char c :: nat) in if 65 \<le> n \<and> n \<le> 90 then char_of (n + 32) else c) s"

section \<open>models/product.py\<close>

datatype KategoriBarang = MAKANAN | MINUMAN | KEBUTUHAN

record Product =
  nama :: string
  harga :: int
  satuan :: string
  kategori :: KategoriBarang

record ProductItem = Product +
  jumlah :: int

text \<open>\<^verbatim>\<open>Product.__init__\<close> with \<^verbatim>\<open>_validate_inputs\<close>.\<close>

definition Product_init :: "string \<Rightarrow> int \<Rightarrow> string \<Rightarrow> KategoriBarang \<Rightarrow> py_error + Product" where
  "Product_init n h s k =
     (if n = [] \<or> py_strip n = [] then Inl (ValueError ''Nama barang tidak boleh kosong'')
      else if h \<le> 0 then Inl (ValueError ''Harga barang harus lebih dari 0'')
      else if s = [] \<or> py_strip s = [] then Inl (ValueError ''Satuan barang tidak boleh kosong'')
      else Inr \<lparr>nama = py_lower (py_strip n), harga = h,
                satuan = py_lower (py_strip s), kategori = k\<rparr>)"

text \<open>\<^verbatim>\<open>ProductItem.__init__(product, jumlah)\<close>: the parent constructor runs first.\<close>

definition ProductItem_init :: "Product \<Rightarrow> int \<Rightarrow> py_error + ProductItem" where
  "ProductItem_init p j =
     (case Product_init (nama p) (harga p) (satuan p) (kategori p) of
        Inl e \<Rightarrow> Inl e
      | Inr q \<Rightarrow>
          if j \<le> 0 then Inl (ValueError ''Jumlah pembelian harus lebih dari 0'')
          else Inr \<lparr>nama = nama q, harga = harga q, satuan = satuan q,
                    kategori = kategori q, jumlah = j\<rparr>)"

text \<open>The \<^verbatim>\<open>jumlah\<close> setter.\<close>

definition set_jumlah :: "ProductItem \<Rightarrow> int \<Rightarrow> py_error + ProductItem" where
  "set_jumlah item v =
     (if v \<le> 0 then Inl (ValueError ''Jumlah pembelian harus lebih dari 0'')
      else Inr (item\<lparr>jumlah := v\<rparr>))"

definition get_total_price :: "ProductItem \<Rightarrow> int" where
  "get_total_price item = harga item * jumlah item"

section \<open>models/customer.py\<close>

text \<open>
  The class hierarchy \<^verbatim>\<open>Customer\<close>, \<^verbatim>\<open>PremiumCustomer(Customer)\<close>,
  \<^verbatim>\<open>VIPCustomer(PremiumCustomer)\<close> as one datatype. The fields are, in order:
  \<^verbatim>\<open>nama\<close>, \<^verbatim>\<open>umur\<close>, \<^verbatim>\<open>is_member\<close> (settable on every class),
  then \<^verbatim>\<open>membership_points\<close> for the premium classes and
  \<^verbatim>\<open>personal_assistant\<close> for the VIP class. A cart whose customer is
  \<^verbatim>\<open>None\<close> has the customer \<open>None\<close> of type \<open>BaseCustomer option\<close>.
\<close>

datatype BaseCustomer =
    Customer string int bool
  | PremiumCustomer string int bool int
  | VIPCustomer string int bool int string

fun umur :: "BaseCustomer \<Rightarrow> int" where
  "umur (Customer n u m) = u"
| "umur (PremiumCustomer n u m p) = u"
| "umur (VIPCustomer n u m p a) = u"

fun is_member :: "BaseCustomer \<Rightarrow> bool" where
  "is_member (Customer n u m) = m"
| "is_member (PremiumCustomer n u m p) = m"
| "is_member (VIPCustomer n u m p a) = m"

text \<open>\<^verbatim>\<open>PremiumCustomer._calculate_tier\<close>; the stored tier is recomputed whenever the points change.\<close>

definition calculate_tier :: "int \<Rightarrow> string" where
  "calculate_tier points =
     (if points \<ge> 10000 then ''Platinum''
      else if points \<ge> 5000 then ''Gold''
      else if points \<ge> 1000 then ''Silver''
      else ''Bronze'')"

text \<open>\<^verbatim>\<open>tier_discounts.get(self._tier, 0.05)\<close>.\<close>

definition tier_discounts :: "(string \<times> pyfloat) list" where
  "tier_discounts =
     [(''Bronze'', float_lit (7 / 100)), (''Silver'', float_lit (10 / 100)),
      (''Gold'', float_lit (15 / 100)), (''Platinum'', float_lit (20 / 100))]"

fun get_discount_multiplier :: "BaseCustomer \<Rightarrow> pyfloat" where
  "get_discount_multiplier (Customer n u m) = (if m then float_lit (5 / 100) else float_lit 0)"
| "get_discount_multiplier (PremiumCustomer n u m p) =
     (case map_of tier_discounts (calculate_tier p) of Some r \<Rightarrow> r | None \<Rightarrow> float_lit (5 / 100))"
| "get_discount_multiplier (VIPCustomer n u m p a) = float_lit (25 / 100)"

section \<open>models/cart.py\<close>

text \<open>
  \<^verbatim>\<open>self._items\<close> is a dict from product name to item, kept here in
  insertion order. Items are held by value: the model does not follow a caller
  that mutates an item object after adding it.
\<close>

record ShoppingCart =
  items :: "(string \<times> ProductItem) list"
  customer :: "BaseCustomer option"
  is_finalized :: bool

definition ShoppingCart_init :: "BaseCustomer option \<Rightarrow> ShoppingCart" where
  "ShoppingCart_init c = \<lparr>items = [], customer = c, is_finalized = False\<rparr>"


definition total_quantity :: "ShoppingCart \<Rightarrow> int" where
  "total_quantity cart = sum_list (map (\<lambda>kv. jumlah (snd kv)) (items cart))"

text \<open>
  The mutators return the method's result together with the cart afterwards,
  or the exception raised. The finalized check comes first in each of them.
\<close>

definition add_item :: "ShoppingCart \<Rightarrow> ProductItem \<Rightarrow> py_error + (bool \<times> ShoppingCart)" where
  "add_item cart product_item =
     (if is_finalized cart then Inr (False, cart)
      else
        let item_key = nama product_item in
        case map_of (items cart) item_key of
          Some existing \<Rightarrow>
            (case set_jumlah existing (jumlah existing + jumlah product_item) of
               Inl e \<Rightarrow> Inl e
             | Inr updated \<Rightarrow>
                 Inr (True, cart\<lparr>items := AList.update item_key updated (items cart)\<rparr>))
        | None \<Rightarrow> Inr (True, cart\<lparr>items := AList.update item_key product_item (items cart)\<rparr>))"

definition remove_item :: "ShoppingCart \<Rightarrow> string \<Rightarrow> py_error + (bool \<times> ShoppingCart)" where
  "remove_item cart product_name =
     (if is_finalized cart then Inr (False, cart)
      else
        let key = py_lower (py_strip product_name) in
        if key \<in> fst ` set (items cart)
        then Inr (True, cart\<lparr>items := AList.delete key (items cart)\<rparr>)
        else Inr (False, cart))"

definition update_quantity :: "ShoppingCart \<Rightarrow> string \<Rightarrow> int \<Rightarrow> py_error + (bool \<times> ShoppingCart)" where
  "update_quantity cart product_name new_quantity =
     (if is_finalized cart then Inr (False, cart)
      else if new_quantity \<le> 0 then Inl (ValueError ''Kuantitas harus lebih dari 0'')
      else
        let key = py_lower (py_strip product_name) in
        case map_of (items cart) key of
          Some existing \<Rightarrow>
            (case set_jumlah existing new_quantity of
               Inl e \<Rightarrow> Inl e
             | Inr updated \<Rightarrow> Inr (True, cart\<lparr>items := AList.update key updated (items cart)\<rparr>))
        | None \<Rightarrow> Inr (False, cart))"

definition clear_cart :: "ShoppingCart \<Rightarrow> py_error + (bool \<times> ShoppingCart)" where
  "clear_cart cart =
     (if is_finalized cart then Inr (False, cart)
      else Inr (True, cart\<lparr>items := []\<rparr>))"

definition finalize_cart :: "ShoppingCart \<Rightarrow> ShoppingCart" where
  "finalize_cart cart = cart\<lparr>is_finalized := True\<rparr>"

definition unfinalize_cart :: "ShoppingCart \<Rightarrow> ShoppingCart" where
  "unfinalize_cart cart = cart\<lparr>is_finalized := False\<rparr>"

definition calculate_subtotal :: "ShoppingCart \<Rightarrow> int" where
  "calculate_subtotal cart = sum_list (map (\<lambda>kv. get_total_price (snd kv)) (items cart))"


text \<open>\<^verbatim>\<open>get_category_totals\<close>: per category the dict \<^verbatim>\<open>{'quantity': .., 'amount': ..}\<close>.\<close>

record category_data =
  quantity :: int
  amount :: int

definition get_category_totals :: "ShoppingCart \<Rightarrow> (KategoriBarang \<times> category_data) list" where
  "get_category_totals cart =
     foldl (\<lambda>acc item.
              let d = (case map_of acc (kategori item) of
                         None \<Rightarrow> \<lparr>quantity = 0, amount = 0\<rparr> | Some d \<Rightarrow> d)
              in AList.update (kategori item)
                   \<lparr>quantity = quantity d + jumlah item,
                    amount = category_data.amount d + get_total_price item\<rparr> acc)
       [] (map snd (items cart))"

section \<open>models/transaction.py\<close>

datatype TransactionStatus = PENDING | COMPLETED | CANCELLED | REFUNDED

text \<open>
  The frozen dataclasses, each with its \<^verbatim>\<open>__post_init__\<close> check. The
  \<^verbatim>\<open>description\<close> text of a discount or tax detail is display text that no
  operation reads; it is left out of the records.
\<close>

record DiscountDetail =
  name :: string
  amount :: int
  percentage :: pyfloat

definition DiscountDetail_init :: "string \<Rightarrow> int \<Rightarrow> pyfloat \<Rightarrow> py_error + DiscountDetail" where
  "DiscountDetail_init n a p =
     (if a < 0 then Inl (ValueError ''Amount diskon tidak boleh negatif'')
      else if \<not> (0 \<le> p \<and> p \<le> 1) then Inl (ValueError ''Persentase diskon harus antara 0-1'')
      else Inr \<lparr>name = n, amount = a, percentage = p\<rparr>)"

record PaymentDetail =
  amount_paid :: int
  payment_method :: string
  change_amount :: int
  installments :: "int list"


text \<open>
  A transaction. Timestamps are readings of an injected clock (a natural
  number); \<^verbatim>\<open>completed_at\<close> is \<^verbatim>\<open>None\<close> until the transaction completes.
\<close>

record Transaction =
  transaction_id :: string
  cart :: ShoppingCart
  customer :: "BaseCustomer option"
  subtotal :: int
  discounts :: "DiscountDetail list"
  tax_amount :: int
  total_amount :: int
  payment :: PaymentDetail
  status :: TransactionStatus
  created_at :: nat
  completed_at :: "nat option"



text \<open>The three transition methods: the result and the transaction afterwards.\<close>

definition complete_transaction :: "nat \<Rightarrow> Transaction \<Rightarrow> bool \<times> Transaction" where
  "complete_transaction now t =
     (if status t = PENDING
      then (True, t\<lparr>status := COMPLETED, completed_at := Some now\<rparr>)
      else (False, t))"

definition cancel_transaction :: "Transaction \<Rightarrow> bool \<times> Transaction" where
  "cancel_transaction t =
     (if status t = PENDING then (True, t\<lparr>status := CANCELLED\<rparr>) else (False, t))"

definition refund_transaction :: "Transaction \<Rightarrow> bool \<times> Transaction" where
  "refund_transaction t =
     (if status t = COMPLETED then (True, t\<lparr>status := REFUNDED\<rparr>) else (False, t))"

text \<open>A call of one of the three methods, and a sequence of calls.\<close>

datatype transition = Complete nat | Cancel | Refund

fun apply_transition :: "transition \<Rightarrow> Transaction \<Rightarrow> bool \<times> Transaction" where
  "apply_transition (Complete now) t = complete_transaction now t"
| "apply_transition Cancel t = cancel_transaction t"
| "apply_transition Refund t = refund_transaction t"

fun run_transitions :: "transition list \<Rightarrow> Transaction \<Rightarrow> Transaction" where
  "run_transitions [] t = t"
| "run_transitions (c # cs) t = run_transitions cs (snd (apply_transition c t))"

definition is_paid_in_full :: "Transaction \<Rightarrow> bool" where
  "is_paid_in_full t = (amount_paid (payment t) \<ge> total_amount t)"

definition get_outstanding_amount :: "Transaction \<Rightarrow> int" where
  "get_outstanding_amount t = max 0 (total_amount t - amount_paid (payment t))"

text \<open>
  \<^verbatim>\<open>TransactionBuilder\<close>. In \<^verbatim>\<open>build\<close>, \<^verbatim>\<open>not self._transaction_id\<close>
  holds for \<^verbatim>\<open>None\<close> and for the empty string, and \<^verbatim>\<open>not self._cart\<close>
  holds for \<^verbatim>\<open>None\<close> and for a cart of length 0 (the cart class defines
  \<^verbatim>\<open>__len__\<close>).
\<close>

record TransactionBuilder =
  b_transaction_id :: "string option"
  b_cart :: "ShoppingCart option"
  b_subtotal :: int
  b_discounts :: "DiscountDetail list"
  b_tax_amount :: int
  b_total_amount :: int
  b_payment :: "PaymentDetail option"





definition add_discount :: "DiscountDetail \<Rightarrow> TransactionBuilder \<Rightarrow> TransactionBuilder" where
  "add_discount d b = b\<lparr>b_discounts := b_discounts b @ [d]\<rparr>"





section \<open>services/discount\_service.py\<close>

text \<open>
  The strategies that \<^verbatim>\<open>DiscountService\<close> holds in its list. A senior
  strategy carries its \<^verbatim>\<open>percentage\<close> and \<^verbatim>\<open>min_age\<close>. The day of the
  week (\<^verbatim>\<open>datetime.now().weekday()\<close>, 0 for Monday) is the argument
  \<open>today\<close>, read once per call.
\<close>

datatype DiscountStrategy =
    SeniorDiscountStrategy pyfloat int
  | MemberDiscountStrategy
  | DayOfWeekDiscountStrategy

text \<open>\<^verbatim>\<open>self._day_discounts\<close>: percentage and name per weekday.\<close>

definition day_discounts :: "(nat \<times> pyfloat \<times> string) list" where
  "day_discounts =
     [(0, float_lit (15 / 100), ''Diskon Hari Senin''),
      (5, float_lit (20 / 100), ''Diskon Hari Sabtu'')]"

fun is_applicable :: "nat \<Rightarrow> DiscountStrategy \<Rightarrow> ShoppingCart \<Rightarrow> BaseCustomer option \<Rightarrow> bool" where
  "is_applicable today (SeniorDiscountStrategy pct min_age) c cust =
     (case cust of None \<Rightarrow> False | Some cu \<Rightarrow> umur cu \<ge> min_age)"
| "is_applicable today MemberDiscountStrategy c cust =
     (case cust of None \<Rightarrow> False | Some cu \<Rightarrow> is_member cu)"
| "is_applicable today DayOfWeekDiscountStrategy c cust =
     (today \<in> fst ` set day_discounts)"

fun calculate_discount ::
  "nat \<Rightarrow> DiscountStrategy \<Rightarrow> ShoppingCart \<Rightarrow> BaseCustomer option \<Rightarrow> py_error + DiscountDetail" where
  "calculate_discount today (SeniorDiscountStrategy pct min_age) c cust =
     (if \<not> is_applicable today (SeniorDiscountStrategy pct min_age) c cust
      then DiscountDetail_init ''Diskon Lansia'' 0 (float_lit 0)
      else
        let sub = calculate_subtotal c;
            discount_amount = int_times_float sub pct
        in DiscountDetail_init ''Diskon Lansia'' discount_amount pct)"
| "calculate_discount today MemberDiscountStrategy c cust =
     (if \<not> is_applicable today MemberDiscountStrategy c cust
      then DiscountDetail_init ''Diskon Member'' 0 (float_lit 0)
      else
        let sub = calculate_subtotal c;
            (pct, tier) =
              (case cust of
                 Some (VIPCustomer n u m p a) \<Rightarrow> (float_lit (25 / 100), ''VIP'')
               | Some (PremiumCustomer n u m p) \<Rightarrow>
                   (get_discount_multiplier (PremiumCustomer n u m p), calculate_tier p)
               | _ \<Rightarrow> (float_lit (5 / 100), ''Regular''));
            discount_amount = int_times_float sub pct
        in DiscountDetail_init (''Diskon Member '' @ tier) discount_amount pct)"
| "calculate_discount today DayOfWeekDiscountStrategy c cust =
     (if \<not> is_applicable today DayOfWeekDiscountStrategy c cust
      then DiscountDetail_init ''Diskon Hari'' 0 (float_lit 0)
      else
        (case map_of day_discounts today of
           None \<Rightarrow> Inl KeyError
         | Some (pct, day_name) \<Rightarrow>
             let sub = calculate_subtotal c;
                 discount_amount = int_times_float sub pct
             in DiscountDetail_init day_name discount_amount pct))"

text \<open>
  \<^verbatim>\<open>CategoryDiscountStrategy\<close>: the rules in the order of the dict
  \<^verbatim>\<open>_category_rules\<close>, each with \<^verbatim>\<open>min_items\<close> and \<^verbatim>\<open>percentage\<close>.
\<close>

definition category_rules :: "(KategoriBarang \<times> int \<times> pyfloat) list" where
  "category_rules =
     [(MAKANAN, 3, float_lit (7 / 100)),
      (MINUMAN, 3, float_lit (7 / 100)),
      (KEBUTUHAN, 2, float_lit (7 / 100))]"

text \<open>\<^verbatim>\<open>category.value.title()\<close>.\<close>

fun category_title :: "KategoriBarang \<Rightarrow> string" where
  "category_title MAKANAN = ''Makanan''"
| "category_title MINUMAN = ''Minuman''"
| "category_title KEBUTUHAN = ''Kebutuhan''"

definition category_is_applicable :: "ShoppingCart \<Rightarrow> bool" where
  "category_is_applicable c =
     (let category_totals = get_category_totals c in
      \<exists>(cat, min_items, pct) \<in> set category_rules.
        (case map_of category_totals cat of
           None \<Rightarrow> False
         | Some d \<Rightarrow> quantity d \<ge> min_items))"

fun category_loop ::
  "(KategoriBarang \<times> category_data) list \<Rightarrow> (KategoriBarang \<times> int \<times> pyfloat) list
     \<Rightarrow> DiscountDetail list \<Rightarrow> py_error + DiscountDetail list" where
  "category_loop category_totals [] acc = Inr acc"
| "category_loop category_totals ((cat, min_items, pct) # rules) acc =
     (case map_of category_totals cat of
        None \<Rightarrow> category_loop category_totals rules acc
      | Some d \<Rightarrow>
          if quantity d \<ge> min_items then
            (case DiscountDetail_init (''Diskon Kategori '' @ category_title cat)
                    (int_times_float (category_data.amount d) pct) pct of
               Inl e \<Rightarrow> Inl e
             | Inr det \<Rightarrow> category_loop category_totals rules (acc @ [det]))
          else category_loop category_totals rules acc)"

definition category_calculate_discount :: "ShoppingCart \<Rightarrow> py_error + DiscountDetail list" where
  "category_calculate_discount c = category_loop (get_category_totals c) category_rules []"

text \<open>\<^verbatim>\<open>DiscountService\<close>: the strategy list; the category strategy is fixed.\<close>

record DiscountService =
  strategies :: "DiscountStrategy list"

definition DiscountService_default :: DiscountService where
  "DiscountService_default =
     \<lparr>strategies = [SeniorDiscountStrategy (float_lit (10 / 100)) 60,
                     MemberDiscountStrategy, DayOfWeekDiscountStrategy]\<rparr>"

fun strategies_loop ::
  "nat \<Rightarrow> DiscountStrategy list \<Rightarrow> ShoppingCart \<Rightarrow> BaseCustomer option \<Rightarrow> DiscountDetail list
     \<Rightarrow> py_error + DiscountDetail list" where
  "strategies_loop today [] c cust acc = Inr acc"
| "strategies_loop today (s # ss) c cust acc =
     (if is_applicable today s c cust then
        (case calculate_discount today s c cust of
           Inl e \<Rightarrow> Inl e
         | Inr d \<Rightarrow>
             strategies_loop today ss c cust
               (if DiscountDetail.amount d > 0 then acc @ [d] else acc))
      else strategies_loop today ss c cust acc)"

definition calculate_all_discounts ::
  "nat \<Rightarrow> DiscountService \<Rightarrow> ShoppingCart \<Rightarrow> BaseCustomer option \<Rightarrow> py_error + DiscountDetail list" where
  "calculate_all_discounts today svc c cust =
     (case strategies_loop today (strategies svc) c cust [] of
        Inl e \<Rightarrow> Inl e
      | Inr all_discounts \<Rightarrow>
          if category_is_applicable c then
            (case category_calculate_discount c of
               Inl e \<Rightarrow> Inl e
             | Inr category_discounts \<Rightarrow> Inr (all_discounts @ category_discounts))
          else Inr all_discounts)"

definition get_total_discount_amount ::
  "nat \<Rightarrow> DiscountService \<Rightarrow> ShoppingCart \<Rightarrow> BaseCustomer option \<Rightarrow> py_error + int" where
  "get_total_discount_amount today svc c cust =
     (case calculate_all_discounts today svc c cust of
        Inl e \<Rightarrow> Inl e
      | Inr ds \<Rightarrow> Inr (sum_list (map DiscountDetail.amount ds)))"

section \<open>services/tax\_service.py\<close>

record TaxDetail =
  name :: string
  rate :: pyfloat
  amount :: int
  taxable_amount :: int
















section \<open>services/transaction\_service.py\<close>

text \<open>
  The messages of the result dicts, one constructor per message text:
  the empty string, \<^verbatim>\<open>Metode pembayaran '<m>' tidak didukung\<close>,
  \<^verbatim>\<open>Jumlah pembayaran tidak boleh negatif\<close>, \<^verbatim>\<open>Pembayaran berhasil\<close>,
  \<^verbatim>\<open>Kurang bayar Rp<n>\<close>, \<^verbatim>\<open>Keranjang belanja kosong\<close> and
  \<^verbatim>\<open>Customer tidak valid\<close>.
\<close>

datatype message =
    NoMessage
  | MetodeTidakDidukung string
  | JumlahPembayaranNegatif
  | PembayaranBerhasil
  | KurangBayar int
  | KeranjangBelanjaKosong
  | CustomerTidakValid

subsection \<open>PaymentProcessor\<close>

definition supported_methods :: "string list" where
  "supported_methods = [''cash'', ''card'', ''digital'', ''transfer'']"

record payment_validation =
  is_valid :: bool
  is_sufficient :: bool
  change_amount :: int
  outstanding_amount :: int
  message :: message

definition validate_payment :: "int \<Rightarrow> int \<Rightarrow> string \<Rightarrow> payment_validation" where
  "validate_payment total_due payment_amount meth =
     (let result = \<lparr>is_valid = False, is_sufficient = False,
                     payment_validation.change_amount = 0, outstanding_amount = 0,
                     message = NoMessage\<rparr>
      in
      if meth \<notin> set supported_methods
      then result\<lparr>message := MetodeTidakDidukung meth\<rparr>
      else if payment_amount < 0
      then result\<lparr>message := JumlahPembayaranNegatif\<rparr>
      else if payment_amount \<ge> total_due
      then result\<lparr>is_valid := True, is_sufficient := True,
                  payment_validation.change_amount := payment_amount - total_due,
                  message := PembayaranBerhasil\<rparr>
      else result\<lparr>is_valid := True,
                  outstanding_amount := total_due - payment_amount,
                  message := KurangBayar (total_due - payment_amount)\<rparr>)"

record installment_result =
  total_paid :: int
  is_complete :: bool
  change_amount :: int
  outstanding_amount :: int
  installment_count :: nat


subsection \<open>TransactionOrchestrator\<close>



record transaction_totals =
  subtotal :: int
  discounts :: "DiscountDetail list"
  total_discount :: int
  subtotal_after_discount :: int
  taxes :: "TaxDetail list"
  total_tax :: int
  total_amount :: int


record transaction_validation =
  is_valid :: bool
  errors :: "message list"
  warnings :: "message list"


subsection \<open>TransactionService\<close>




text \<open>
  Items made by \<^verbatim>\<open>ProductItem.__init__\<close> and changed through the
  \<^verbatim>\<open>jumlah\<close> and \<^verbatim>\<open>harga\<close> setters have a positive price and a positive
  quantity. A cart is well formed when all its items are.
\<close>

definition wf_item :: "ProductItem \<Rightarrow> bool" where
  "wf_item item = (0 < harga item \<and> 0 < jumlah item)"

definition wf_cart :: "ShoppingCart \<Rightarrow> bool" where
  "wf_cart c = list_all (\<lambda>kv. wf_item (snd kv)) (items c)"

text \<open>
  The items of a cart that belong to one category, their total quantity and
  their total price: the quantity and the subtotal "in the cart for that
  category" of the specification. \<open>category_threshold\<close> is the specification's
  threshold table (3 for food and drink, 2 for household), and
  \<open>category_result\<close> the discount detail it describes for a category.
\<close>

definition category_items :: "ShoppingCart \<Rightarrow> KategoriBarang \<Rightarrow> ProductItem list" where
  "category_items c cat = filter (\<lambda>item. kategori item = cat) (map snd (items c))"

definition category_quantity :: "ShoppingCart \<Rightarrow> KategoriBarang \<Rightarrow> int" where
  "category_quantity c cat = sum_list (map jumlah (category_items c cat))"

definition category_amount :: "ShoppingCart \<Rightarrow> KategoriBarang \<Rightarrow> int" where
  "category_amount c cat = sum_list (map get_total_price (category_items c cat))"

fun category_threshold :: "KategoriBarang \<Rightarrow> int" where
  "category_threshold MAKANAN = 3"
| "category_threshold MINUMAN = 3"
| "category_threshold KEBUTUHAN = 2"

definition category_result :: "ShoppingCart \<Rightarrow> KategoriBarang \<Rightarrow> DiscountDetail" where
  "category_result c cat =
     \<lparr>DiscountDetail.name = ''Diskon Kategori '' @ category_title cat,
      DiscountDetail.amount = int_times_float (category_amount c cat) (float_lit (7 / 100)),
      percentage = float_lit (7 / 100)\<rparr>"

text \<open>The loop body of \<^verbatim>\<open>get_category_totals\<close>.\<close>

definition totals_step ::
  "(KategoriBarang \<times> category_data) list \<Rightarrow> ProductItem \<Rightarrow> (KategoriBarang \<times> category_data) list" where
  "totals_step acc item =
     (let d = (case map_of acc (kategori item) of
                 None \<Rightarrow> \<lparr>quantity = 0, category_data.amount = 0\<rparr> | Some d \<Rightarrow> d)
      in AList.update (kategori item)
           \<lparr>quantity = quantity d + jumlah item,
            category_data.amount = category_data.amount d + get_total_price item\<rparr> acc)"

text \<open>
  What one rule of \<^verbatim>\<open>CategoryDiscountStrategy.calculate_discount\<close> appends,
  and when: the category is a key of the totals dict and its quantity reaches
  the rule's minimum.
\<close>

definition rule_result :: "ShoppingCart \<Rightarrow> KategoriBarang \<times> int \<times> pyfloat \<Rightarrow> DiscountDetail" where
  "rule_result c rule =
     \<lparr>DiscountDetail.name = ''Diskon Kategori '' @ category_title (fst rule),
      DiscountDetail.amount = int_times_float (category_amount c (fst rule)) (snd (snd rule)),
      percentage = snd (snd rule)\<rparr>"

definition rule_qualifies :: "ShoppingCart \<Rightarrow> KategoriBarang \<times> int \<times> pyfloat \<Rightarrow> bool" where
  "rule_qualifies c rule =
     (category_items c (fst rule) \<noteq> [] \<and> fst (snd rule) \<le> category_quantity c (fst rule))"

text \<open>
  The rate table of the specification, in percent: senior 10; member 5 for a
  regular member, 7, 10, 15 or 20 for the tiers Bronze (under 1000 points),
  Silver (under 5000), Gold (under 10000) and Platinum, and 25 for the VIP
  segment; Monday 15 and Saturday 20. \<open>spec_rate\<close> is the rate as a fraction.
\<close>

fun spec_percent :: "nat \<Rightarrow> DiscountStrategy \<Rightarrow> BaseCustomer option \<Rightarrow> int" where
  "spec_percent today (SeniorDiscountStrategy pct min_age) cust = 10"
| "spec_percent today MemberDiscountStrategy cust =
     (case cust of
        Some (VIPCustomer n u m p a) \<Rightarrow> 25
      | Some (PremiumCustomer n u m p) \<Rightarrow>
          (if p < 1000 then 7 else if p < 5000 then 10 else if p < 10000 then 15 else 20)
      | _ \<Rightarrow> 5)"
| "spec_percent today DayOfWeekDiscountStrategy cust =
     (if today = 0 then 15 else if today = 5 then 20 else 0)"

definition spec_rate :: "nat \<Rightarrow> DiscountStrategy \<Rightarrow> BaseCustomer option \<Rightarrow> rat" where
  "spec_rate today s cust = of_int (spec_percent today s cust) / 100"

section \<open>Example data\<close>

text \<open>
  A regular customer aged 30 who is no member, and a cart holding one unit of
  a food item priced 50000. On a Wednesday (\<open>today = 2\<close>) no discount applies
  and the total stays below every tax threshold, so the amount due is 50000.
\<close>

definition budi :: BaseCustomer where
  "budi = Customer ''Budi'' 30 False"

definition beras :: ProductItem where
  "beras = \<lparr>nama = ''beras'', harga = 50000, satuan = ''kg'', kategori = MAKANAN, jumlah = 1\<rparr>"

definition cart_50000 :: ShoppingCart where
  "cart_50000 = \<lparr>items = [(''beras'', beras)], customer = Some budi, is_finalized = False\<rparr>"

definition payment_30000 :: PaymentDetail where
  "payment_30000 =
     \<lparr>amount_paid = 30000, payment_method = ''cash'', PaymentDetail.change_amount = 0,
      installments = []\<rparr>"

definition pending_txn :: Transaction where
  "pending_txn =
     \<lparr>transaction_id = ''TXN_20240103_101500_1a2b3c4d'', cart = finalize_cart cart_50000,
      Transaction.customer = Some budi, Transaction.subtotal = 50000,
      Transaction.discounts = [], tax_amount = 0, Transaction.total_amount = 50000,
      payment = payment_30000, status = PENDING, created_at = 1000, completed_at = None\<rparr>"









text \<open>
  A cart with three units of a food item, two of a drink and two of a
  household item: food and household reach their thresholds, drink does not.
\<close>

definition nasi :: ProductItem where
  "nasi = \<lparr>nama = ''nasi'', harga = 15000, satuan = ''porsi'', kategori = MAKANAN, jumlah = 3\<rparr>"

definition teh :: ProductItem where
  "teh = \<lparr>nama = ''teh'', harga = 5000, satuan = ''botol'', kategori = MINUMAN, jumlah = 2\<rparr>"

definition sabun :: ProductItem where
  "sabun = \<lparr>nama = ''sabun'', harga = 10000, satuan = ''buah'', kategori = KEBUTUHAN, jumlah = 2\<rparr>"

definition cart_mixed :: ShoppingCart where
  "cart_mixed =
     \<lparr>items = [(''nasi'', nasi), (''teh'', teh), (''sabun'', sabun)],
      customer = Some budi, is_finalized = False\<rparr>"

text \<open>A cart with three units of a food item priced 4, so a category total of 12.\<close>

definition permen :: ProductItem where
  "permen = \<lparr>nama = ''permen'', harga = 4, satuan = ''buah'', kategori = MAKANAN, jumlah = 3\<rparr>"

definition cart_permen :: ShoppingCart where
  "cart_permen = \<lparr>items = [(''permen'', permen)], customer = Some budi, is_finalized = False\<rparr>"

text \<open>
  A Bronze premium member and a cart holding one household item priced
  \<open>10^17\<close>.
\<close>

definition bronze :: BaseCustomer where
  "bronze = PremiumCustomer ''Dewi'' 40 True 500"

definition berlian :: ProductItem where
  "berlian = \<lparr>nama = ''berlian'', harga = 100000000000000000, satuan = ''buah'',
              kategori = KEBUTUHAN, jumlah = 1\<rparr>"

definition cart_huge :: ShoppingCart where
  "cart_huge = \<lparr>items = [(''berlian'', berlian)], customer = Some bronze, is_finalized = False\<rparr>"

section \<open>The transaction state machine\<close>

lemma complete_transaction_result:
  "fst (complete_transaction now t) = (status t = PENDING)"
  by (simp add: complete_transaction_def)

lemma cancel_transaction_result:
  "fst (cancel_transaction t) = (status t = PENDING)"
  by (simp add: cancel_transaction_def)

lemma refund_transaction_result:
  "fst (refund_transaction t) = (status t = COMPLETED)"
  by (simp add: refund_transaction_def)

lemma apply_transition_cancelled:
  "status t = CANCELLED \<Longrightarrow> snd (apply_transition c t) = t"
  by (cases c) (simp_all add: complete_transaction_def cancel_transaction_def refund_transaction_def)

lemma apply_transition_refunded:
  "status t = REFUNDED \<Longrightarrow> snd (apply_transition c t) = t"
  by (cases c) (simp_all add: complete_transaction_def cancel_transaction_def refund_transaction_def)

lemma apply_transition_completed:
  "status t = COMPLETED \<Longrightarrow>
     status (snd (apply_transition c t)) = COMPLETED \<or> status (snd (apply_transition c t)) = REFUNDED"
  by (cases c) (simp_all add: complete_transaction_def cancel_transaction_def refund_transaction_def)

lemma run_transitions_cancelled:
  "status t = CANCELLED \<Longrightarrow> run_transitions cs t = t"
  by (induction cs) (simp_all add: apply_transition_cancelled)

lemma run_transitions_refunded:
  "status t = REFUNDED \<Longrightarrow> run_transitions cs t = t"
  by (induction cs) (simp_all add: apply_transition_refunded)

lemma run_transitions_completed:
  "status t = COMPLETED \<Longrightarrow>
     status (run_transitions cs t) = COMPLETED \<or> status (run_transitions cs t) = REFUNDED"
proof (induction cs arbitrary: t)
  case Nil
  then show ?case by simp
next
  case (Cons c cs)
  from apply_transition_completed [OF Cons.prems, of c]
  show ?case
  proof
    assume "status (snd (apply_transition c t)) = COMPLETED"
    then show ?thesis using Cons.IH by simp
  next
    assume "status (snd (apply_transition c t)) = REFUNDED"
    then show ?thesis by (simp add: run_transitions_refunded)
  qed
qed

lemma run_transitions_append:
  "run_transitions (cs @ ds) t = run_transitions ds (run_transitions cs t)"
  by (induction cs arbitrary: t) simp_all

text \<open>
  Claim C3. \<^verbatim>\<open>complete_transaction\<close> and \<^verbatim>\<open>cancel_transaction\<close> return
  \<^verbatim>\<open>True\<close> exactly when the status is \<^verbatim>\<open>PENDING\<close> and then set it to
  \<^verbatim>\<open>COMPLETED\<close> and \<^verbatim>\<open>CANCELLED\<close>; \<^verbatim>\<open>refund_transaction\<close> returns
  \<^verbatim>\<open>True\<close> exactly when the status is \<^verbatim>\<open>COMPLETED\<close> and then sets it to
  \<^verbatim>\<open>REFUNDED\<close>; every other call returns \<^verbatim>\<open>False\<close> and leaves the whole
  transaction as it was. In any sequence of calls on a pending transaction,
  once the status is \<^verbatim>\<open>CANCELLED\<close> no later call makes it \<^verbatim>\<open>COMPLETED\<close>,
  and once it is \<^verbatim>\<open>COMPLETED\<close> no later call makes it \<^verbatim>\<open>CANCELLED\<close>.
\<close>

theorem C3_status_transitions:
  "(fst (complete_transaction now t) \<longleftrightarrow> status t = PENDING)
   \<and> (status t = PENDING \<longrightarrow> status (snd (complete_transaction now t)) = COMPLETED)
   \<and> (status t \<noteq> PENDING \<longrightarrow> snd (complete_transaction now t) = t)
   \<and> (fst (cancel_transaction t) \<longleftrightarrow> status t = PENDING)
   \<and> (status t = PENDING \<longrightarrow> status (snd (cancel_transaction t)) = CANCELLED)
   \<and> (status t \<noteq> PENDING \<longrightarrow> snd (cancel_transaction t) = t)
   \<and> (fst (refund_transaction t) \<longleftrightarrow> status t = COMPLETED)
   \<and> (status t = COMPLETED \<longrightarrow> status (snd (refund_transaction t)) = REFUNDED)
   \<and> (status t \<noteq> COMPLETED \<longrightarrow> snd (refund_transaction t) = t)
   \<and> (status t = PENDING \<longrightarrow>
        (status (run_transitions cs t) = CANCELLED \<longrightarrow>
           status (run_transitions (cs @ ds) t) \<noteq> COMPLETED)
      \<and> (status (run_transitions cs t) = COMPLETED \<longrightarrow>
           status (run_transitions (cs @ ds) t) \<noteq> CANCELLED))"
proof -
  have methods:
    "(fst (complete_transaction now t) \<longleftrightarrow> status t = PENDING)
     \<and> (status t = PENDING \<longrightarrow> status (snd (complete_transaction now t)) = COMPLETED)
     \<and> (status t \<noteq> PENDING \<longrightarrow> snd (complete_transaction now t) = t)
     \<and> (fst (cancel_transaction t) \<longleftrightarrow> status t = PENDING)
     \<and> (status t = PENDING \<longrightarrow> status (snd (cancel_transaction t)) = CANCELLED)
     \<and> (status t \<noteq> PENDING \<longrightarrow> snd (cancel_transaction t) = t)
     \<and> (fst (refund_transaction t) \<longleftrightarrow> status t = COMPLETED)
     \<and> (status t = COMPLETED \<longrightarrow> status (snd (refund_transaction t)) = REFUNDED)
     \<and> (status t \<noteq> COMPLETED \<longrightarrow> snd (refund_transaction t) = t)"
    by (simp add: complete_transaction_def cancel_transaction_def refund_transaction_def)
  have from_cancelled:
    "status (run_transitions cs t) = CANCELLED \<longrightarrow>
       status (run_transitions (cs @ ds) t) \<noteq> COMPLETED"
    by (simp add: run_transitions_append run_transitions_cancelled)
  have from_completed:
    "status (run_transitions cs t) = COMPLETED \<longrightarrow>
       status (run_transitions (cs @ ds) t) \<noteq> CANCELLED"
  proof
    assume "status (run_transitions cs t) = COMPLETED"
    from run_transitions_completed [OF this, of ds]
    show "status (run_transitions (cs @ ds) t) \<noteq> CANCELLED"
      by (auto simp: run_transitions_append)
  qed
  from methods from_cancelled from_completed show ?thesis by blast
qed

theorem C3_status_transitions_witness:
  "status pending_txn = PENDING
   \<and> fst (complete_transaction 2000 pending_txn)
   \<and> status (snd (complete_transaction 2000 pending_txn)) = COMPLETED
   \<and> fst (cancel_transaction pending_txn)
   \<and> status (snd (cancel_transaction pending_txn)) = CANCELLED
   \<and> \<not> fst (refund_transaction pending_txn)
   \<and> snd (refund_transaction pending_txn) = pending_txn
   \<and> status (run_transitions [Cancel] pending_txn) = CANCELLED
   \<and> status (run_transitions ([Cancel] @ [Complete 2000, Refund]) pending_txn) \<noteq> COMPLETED
   \<and> status (run_transitions [Complete 2000] pending_txn) = COMPLETED
   \<and> status (run_transitions ([Complete 2000] @ [Cancel, Refund]) pending_txn) \<noteq> CANCELLED"
proof -
  have p: "status pending_txn = PENDING"
    by (simp add: pending_txn_def)
  have c1: "status (run_transitions [Cancel] pending_txn) = CANCELLED"
    by (simp add: pending_txn_def cancel_transaction_def)
  have c2: "status (run_transitions [Complete 2000] pending_txn) = COMPLETED"
    by (simp add: pending_txn_def complete_transaction_def)
  from p c1 c2
    C3_status_transitions [of 2000 pending_txn "[Cancel]" "[Complete 2000, Refund]"]
    C3_status_transitions [of 2000 pending_txn "[Complete 2000]" "[Cancel, Refund]"]
  show ?thesis by simp
qed

section \<open>A finalized cart\<close>

text \<open>
  Claim C4. On a cart whose finalized flag is set, \<^verbatim>\<open>add_item\<close>,
  \<^verbatim>\<open>remove_item\<close>, \<^verbatim>\<open>update_quantity\<close> and \<^verbatim>\<open>clear_cart\<close> each return
  \<^verbatim>\<open>False\<close> without raising, whatever their arguments (also a quantity that
  is not positive), and leave the cart, hence its item dict, unchanged.
\<close>

theorem C4_finalized_cart_rejects_mutation:
  assumes "is_finalized c"
  shows "add_item c product_item = Inr (False, c)
       \<and> remove_item c product_name = Inr (False, c)
       \<and> update_quantity c product_name new_quantity = Inr (False, c)
       \<and> clear_cart c = Inr (False, c)"
  using assms
  by (simp add: add_item_def remove_item_def update_quantity_def clear_cart_def)

theorem C4_finalized_cart_rejects_mutation_witness:
  "is_finalized (finalize_cart cart_50000)
   \<and> add_item (finalize_cart cart_50000) beras = Inr (False, finalize_cart cart_50000)
   \<and> remove_item (finalize_cart cart_50000) ''beras'' = Inr (False, finalize_cart cart_50000)
   \<and> update_quantity (finalize_cart cart_50000) ''beras'' 0 = Inr (False, finalize_cart cart_50000)
   \<and> clear_cart (finalize_cart cart_50000) = Inr (False, finalize_cart cart_50000)
   \<and> items (finalize_cart cart_50000) = [(''beras'', beras)]"
proof -
  have fin: "is_finalized (finalize_cart cart_50000)"
    by (simp add: finalize_cart_def)
  have its: "items (finalize_cart cart_50000) = [(''beras'', beras)]"
    by (simp add: finalize_cart_def cart_50000_def)
  from fin its
    C4_finalized_cart_rejects_mutation [OF fin, of beras "''beras''" 0]
  show ?thesis by simp
qed

section \<open>Payment validation\<close>

lemma validate_payment_invalid_iff:
  "\<not> payment_validation.is_valid (validate_payment total_due p m)
     \<longleftrightarrow> m \<notin> set supported_methods \<or> p < 0"
  by (simp add: validate_payment_def Let_def)

lemma validate_payment_sufficient:
  assumes "m \<in> set supported_methods" and "0 \<le> p" and "total_due \<le> p"
  shows "validate_payment total_due p m =
           \<lparr>payment_validation.is_valid = True, is_sufficient = True,
            payment_validation.change_amount = p - total_due,
            payment_validation.outstanding_amount = 0, message = PembayaranBerhasil\<rparr>"
  using assms by (simp add: validate_payment_def Let_def)

lemma validate_payment_short:
  assumes "m \<in> set supported_methods" and "0 \<le> p" and "p < total_due"
  shows "validate_payment total_due p m =
           \<lparr>payment_validation.is_valid = True, is_sufficient = False,
            payment_validation.change_amount = 0,
            payment_validation.outstanding_amount = total_due - p,
            message = KurangBayar (total_due - p)\<rparr>"
  using assms by (simp add: validate_payment_def Let_def)

text \<open>
  Claim C7. \<^verbatim>\<open>validate_payment\<close> reports an invalid payment exactly when the
  method is not a supported one or the amount paid is negative. For a valid
  input it reports whether the payment suffices: the change is the amount
  paid minus the total when that is not negative, and the outstanding amount
  is the total minus the amount paid otherwise. A payment that falls short is
  still valid: it is reported by \<^verbatim>\<open>is_sufficient = False\<close> and the message.
\<close>

theorem C7_validate_payment:
  "(\<not> payment_validation.is_valid (validate_payment total_due p m)
      \<longleftrightarrow> m \<notin> set supported_methods \<or> p < 0)
   \<and> (m \<in> set supported_methods \<and> 0 \<le> p \<and> total_due \<le> p \<longrightarrow>
        payment_validation.is_valid (validate_payment total_due p m)
      \<and> is_sufficient (validate_payment total_due p m)
      \<and> payment_validation.change_amount (validate_payment total_due p m) = p - total_due
      \<and> payment_validation.outstanding_amount (validate_payment total_due p m) = 0)
   \<and> (m \<in> set supported_methods \<and> 0 \<le> p \<and> p < total_due \<longrightarrow>
        payment_validation.is_valid (validate_payment total_due p m)
      \<and> \<not> is_sufficient (validate_payment total_due p m)
      \<and> payment_validation.outstanding_amount (validate_payment total_due p m) = total_due - p
      \<and> payment_validation.change_amount (validate_payment total_due p m) = 0
      \<and> message (validate_payment total_due p m) = KurangBayar (total_due - p))"
proof (intro conjI impI)
  show "\<not> payment_validation.is_valid (validate_payment total_due p m)
          \<longleftrightarrow> m \<notin> set supported_methods \<or> p < 0"
    by (rule validate_payment_invalid_iff)
next
  assume "m \<in> set supported_methods \<and> 0 \<le> p \<and> total_due \<le> p"
  then have eq: "validate_payment total_due p m =
           \<lparr>payment_validation.is_valid = True, is_sufficient = True,
            payment_validation.change_amount = p - total_due,
            payment_validation.outstanding_amount = 0, message = PembayaranBerhasil\<rparr>"
    by (simp add: validate_payment_sufficient)
  show "payment_validation.is_valid (validate_payment total_due p m)"
    and "is_sufficient (validate_payment total_due p m)"
    and "payment_validation.change_amount (validate_payment total_due p m) = p - total_due"
    and "payment_validation.outstanding_amount (validate_payment total_due p m) = 0"
    by (simp_all add: eq)
next
  assume "m \<in> set supported_methods \<and> 0 \<le> p \<and> p < total_due"
  then have eq: "validate_payment total_due p m =
           \<lparr>payment_validation.is_valid = True, is_sufficient = False,
            payment_validation.change_amount = 0,
            payment_validation.outstanding_amount = total_due - p,
            message = KurangBayar (total_due - p)\<rparr>"
    by (simp add: validate_payment_short)
  show "payment_validation.is_valid (validate_payment total_due p m)"
    and "\<not> is_sufficient (validate_payment total_due p m)"
    and "payment_validation.outstanding_amount (validate_payment total_due p m) = total_due - p"
    and "payment_validation.change_amount (validate_payment total_due p m) = 0"
    and "message (validate_payment total_due p m) = KurangBayar (total_due - p)"
    by (simp_all add: eq)
qed

theorem C7_validate_payment_witness:
  "''cash'' \<in> set supported_methods
   \<and> payment_validation.is_valid (validate_payment 50000 30000 ''cash'')
   \<and> \<not> is_sufficient (validate_payment 50000 30000 ''cash'')
   \<and> payment_validation.outstanding_amount (validate_payment 50000 30000 ''cash'') = 20000
   \<and> payment_validation.change_amount (validate_payment 50000 30000 ''cash'') = 0
   \<and> payment_validation.is_valid (validate_payment 50000 60000 ''card'')
   \<and> is_sufficient (validate_payment 50000 60000 ''card'')
   \<and> payment_validation.change_amount (validate_payment 50000 60000 ''card'') = 10000
   \<and> \<not> payment_validation.is_valid (validate_payment 50000 60000 ''cheque'')
   \<and> \<not> payment_validation.is_valid (validate_payment 50000 (- 1) ''cash'')"
  using C7_validate_payment [of 50000 30000 "''cash''"]
    C7_validate_payment [of 50000 60000 "''card''"]
    C7_validate_payment [of 50000 60000 "''cheque''"]
    C7_validate_payment [of 50000 "- 1" "''cash''"]
  by (simp add: supported_methods_def)

section \<open>What a created transaction holds\<close>


lemma DiscountDetail_init_InrD:
  "DiscountDetail_init n a p = Inr d \<Longrightarrow>
     d = \<lparr>DiscountDetail.name = n, DiscountDetail.amount = a, percentage = p\<rparr>
     \<and> 0 \<le> a \<and> 0 \<le> p \<and> p \<le> 1"
  by (auto simp: DiscountDetail_init_def split: if_splits)














section \<open>The recorded payment\<close>





section \<open>Facts about the float model\<close>

lemma round_half_even_nonneg: "0 \<le> x \<Longrightarrow> 0 \<le> round_half_even x"
  by (auto simp: round_half_even_def Let_def)

lemma round53_nonneg: "0 \<le> q \<Longrightarrow> 0 \<le> round53 q"
  by (auto simp: round53_def Let_def sgn_if intro!: mult_nonneg_nonneg round_half_even_nonneg
        divide_nonneg_nonneg)

lemma int_times_float_nonneg:
  assumes "0 \<le> n" and "0 \<le> r"
  shows "0 \<le> int_times_float n r"
proof -
  from assms(1) have "0 \<le> float_of_int n"
    by (simp add: float_of_int_def round53_nonneg)
  with assms(2) have "0 \<le> float_mul (float_of_int n) r"
    by (simp add: float_mul_def round53_nonneg)
  then show ?thesis
    by (simp add: int_times_float_def int_of_float_def)
qed

lemma float_lit_nonneg: "0 \<le> q \<Longrightarrow> 0 \<le> float_lit q"
  by (simp add: float_lit_def round53_nonneg)


text \<open>The discount rates of the source, as fractions in lowest terms.\<close>

lemma discount_rates_le_1:
  "float_lit (1 / 20) \<le> 1"
  "float_lit (7 / 100) \<le> 1"
  "float_lit (1 / 10) \<le> 1"
  "float_lit (3 / 20) \<le> 1"
  "float_lit (1 / 5) \<le> 1"
  "float_lit (1 / 4) \<le> 1"
  by code_simp+

section \<open>The combined tax mode\<close>












section \<open>The category discount strategy\<close>

lemma get_category_totals_foldl:
  "get_category_totals c = foldl totals_step [] (map snd (items c))"
  unfolding get_category_totals_def totals_step_def ..

lemma totals_foldl_lookup:
  "map_of (foldl totals_step [] xs) cat =
     (if filter (\<lambda>item. kategori item = cat) xs = [] then None
      else Some \<lparr>quantity = sum_list (map jumlah (filter (\<lambda>item. kategori item = cat) xs)),
                 category_data.amount =
                   sum_list (map get_total_price (filter (\<lambda>item. kategori item = cat) xs))\<rparr>)"
proof (induction xs rule: rev_induct)
  case Nil
  then show ?case by simp
next
  case (snoc x xs)
  show ?case
  proof (cases "kategori x = cat")
    case True
    with snoc show ?thesis
      by (simp add: totals_step_def Let_def update_conv')
  next
    case False
    with snoc show ?thesis
      by (simp add: totals_step_def Let_def update_conv')
  qed
qed

lemma get_category_totals_lookup:
  "map_of (get_category_totals c) cat =
     (if category_items c cat = [] then None
      else Some \<lparr>quantity = category_quantity c cat,
                 category_data.amount = category_amount c cat\<rparr>)"
  by (simp add: get_category_totals_foldl totals_foldl_lookup category_items_def
        category_quantity_def category_amount_def)

lemma DiscountDetail_init_ok:
  assumes "0 \<le> a" and "0 \<le> p" and "p \<le> 1"
  shows "DiscountDetail_init n a p
           = Inr \<lparr>DiscountDetail.name = n, DiscountDetail.amount = a, percentage = p\<rparr>"
  using assms by (simp add: DiscountDetail_init_def)

lemma wf_item_total_price: "wf_item item \<Longrightarrow> 0 \<le> get_total_price item"
  by (simp add: wf_item_def get_total_price_def)

lemma sum_list_nonneg_int: "(\<And>x. x \<in> set xs \<Longrightarrow> (0::int) \<le> f x) \<Longrightarrow> 0 \<le> sum_list (map f xs)"
  by (induction xs) auto

lemma wf_cart_category_amount:
  assumes "wf_cart c"
  shows "0 \<le> category_amount c cat"
  unfolding category_amount_def category_items_def
  using assms
  by (intro sum_list_nonneg_int wf_item_total_price)
     (auto simp: wf_cart_def list_all_iff)

lemma wf_cart_subtotal:
  assumes "wf_cart c"
  shows "0 \<le> calculate_subtotal c"
  unfolding calculate_subtotal_def
  using assms
  by (intro sum_list_nonneg_int wf_item_total_price)
     (auto simp: wf_cart_def list_all_iff)

lemma category_loop_eq:
  assumes "wf_cart c"
    and "\<And>rule. rule \<in> set rules \<Longrightarrow> 0 \<le> snd (snd rule) \<and> snd (snd rule) \<le> 1"
  shows "category_loop (get_category_totals c) rules acc
           = Inr (acc @ map (rule_result c) (filter (rule_qualifies c) rules))"
  using assms(2)
proof (induction rules arbitrary: acc)
  case Nil
  then show ?case by simp
next
  case (Cons rule rules)
  obtain cat min_items pct where rule: "rule = (cat, min_items, pct)"
    by (cases rule) auto
  from Cons.prems [of rule] rule have pct: "0 \<le> pct" "pct \<le> 1" by auto
  have amt: "0 \<le> int_times_float (category_amount c cat) pct"
    using wf_cart_category_amount [OF assms(1)] pct(1) by (rule int_times_float_nonneg)
  have IH: "category_loop (get_category_totals c) rules acc'
              = Inr (acc' @ map (rule_result c) (filter (rule_qualifies c) rules))" for acc'
    using Cons.IH Cons.prems by simp
  show ?case
  proof (cases "rule_qualifies c rule")
    case True
    with rule have "category_loop (get_category_totals c) (rule # rules) acc
        = category_loop (get_category_totals c) rules (acc @ [rule_result c rule])"
      by (simp add: get_category_totals_lookup rule_qualifies_def rule_result_def
            DiscountDetail_init_ok amt pct)
    with True show ?thesis by (simp add: IH)
  next
    case False
    with rule have "category_loop (get_category_totals c) (rule # rules) acc
        = category_loop (get_category_totals c) rules acc"
      by (auto simp: get_category_totals_lookup rule_qualifies_def)
    with False show ?thesis by (simp add: IH)
  qed
qed

lemma empty_category_quantity: "category_items c cat = [] \<Longrightarrow> category_quantity c cat = 0"
  by (simp add: category_quantity_def)

lemma category_calculate_discount_eq:
  assumes "wf_cart c"
  shows "category_calculate_discount c
           = Inr (map (category_result c)
                   (filter (\<lambda>cat. category_threshold cat \<le> category_quantity c cat)
                      [MAKANAN, MINUMAN, KEBUTUHAN]))"
proof -
  have rates: "0 \<le> snd (snd rule) \<and> snd (snd rule) \<le> 1" if "rule \<in> set category_rules" for rule
    using that by (auto simp: category_rules_def float_lit_nonneg discount_rates_le_1)
  have q: "rule_qualifies c (cat, category_threshold cat, p)
             \<longleftrightarrow> category_threshold cat \<le> category_quantity c cat" for cat p
    using empty_category_quantity [of c cat]
    by (cases cat) (auto simp: rule_qualifies_def)
  have r: "rule_result c (cat, m, float_lit (7 / 100)) = category_result c cat" for cat m
    by (simp add: rule_result_def category_result_def)
  have rules: "category_rules =
     [(MAKANAN, category_threshold MAKANAN, float_lit (7 / 100)),
      (MINUMAN, category_threshold MINUMAN, float_lit (7 / 100)),
      (KEBUTUHAN, category_threshold KEBUTUHAN, float_lit (7 / 100))]"
    by (simp add: category_rules_def)
  have "category_calculate_discount c
          = Inr (map (rule_result c) (filter (rule_qualifies c) category_rules))"
    using category_loop_eq [OF assms rates, of category_rules "[]"]
    by (simp add: category_calculate_discount_def)
  also have "map (rule_result c) (filter (rule_qualifies c) category_rules)
      = map (category_result c)
          (filter (\<lambda>cat. category_threshold cat \<le> category_quantity c cat)
             [MAKANAN, MINUMAN, KEBUTUHAN])"
    unfolding rules by (simp only: list.map filter.simps q r split: if_splits) simp
  finally show ?thesis .
qed







section \<open>Zero-amount discounts\<close>

text \<open>
  The loop over the strategy list keeps a result only when its amount is
  positive.
\<close>

lemma strategies_loop_positive:
  assumes "strategies_loop today ss c cust acc = Inr ds" and "d \<in> set ds"
  shows "d \<in> set acc \<or> 0 < DiscountDetail.amount d"
  using assms
proof (induction ss arbitrary: acc)
  case Nil
  then show ?case by simp
next
  case (Cons s ss)
  show ?case
  proof (cases "is_applicable today s c cust")
    case False
    with Cons show ?thesis by simp
  next
    case True
    with Cons.prems(1) obtain det where
      rest: "strategies_loop today ss c cust
               (if DiscountDetail.amount det > 0 then acc @ [det] else acc) = Inr ds"
      by (auto split: sum.splits)
    from Cons.IH [OF rest Cons.prems(2)] show ?thesis
      by (auto split: if_splits)
  qed
qed

text \<open>
  Claim C2 says that no discount detail returned by
  \<^verbatim>\<open>calculate_all_discounts\<close> has amount zero. The category details are
  appended without that test: for three units of a food item priced 4 the
  category strategy applies (quantity 3) and its detail has the amount
  \<^verbatim>\<open>int(12 * 0.07) = 0\<close>, which the returned list contains.
\<close>

theorem C2_zero_amount_category_discount:
  "wf_cart cart_permen
   \<and> calculate_all_discounts 2 DiscountService_default cart_permen (Some budi)
       = Inr [\<lparr>DiscountDetail.name = ''Diskon Kategori Makanan'', DiscountDetail.amount = 0,
               percentage = float_lit (7 / 100)\<rparr>]"
  by code_simp

section \<open>Exactness of the float products\<close>

lemma bitlen_powi_bounds:
  assumes "0 < a"
  shows "(2::rat) powi (bitlen a - 1) \<le> of_int a" and "of_int a < (2::rat) powi bitlen a"
proof -
  from assms have pos: "1 \<le> bitlen a"
    using bitlen_eq_zero_iff [of a] bitlen_nonneg [of a] by linarith
  from bitlen_bounds [OF assms]
  have lo: "2 ^ nat (bitlen a - 1) \<le> a" and hi: "a < 2 ^ nat (bitlen a)" by simp_all
  from lo have "(of_int (2 ^ nat (bitlen a - 1)) :: rat) \<le> of_int a"
    by (simp only: of_int_le_iff)
  with pos show "(2::rat) powi (bitlen a - 1) \<le> of_int a"
    by (simp add: power_int_def)
  from hi have "(of_int a :: rat) < of_int (2 ^ nat (bitlen a))"
    by (simp only: of_int_less_iff)
  with pos show "of_int a < (2::rat) powi bitlen a"
    by (simp add: power_int_def)
qed

lemma ilog2_bounds:
  assumes "0 < q"
  shows "2 powi ilog2 q \<le> q" and "q < 2 powi (ilog2 q + 1)"
proof -
  define a where "a = fst (quotient_of q)"
  define b where "b = snd (quotient_of q)"
  define d where "d = bitlen a - bitlen b"
  have b: "0 < b" by (simp add: b_def quotient_of_denom_pos')
  have q: "q = of_int a / of_int b"
    by (rule quotient_of_div) (simp add: a_def b_def)
  from assms b have a: "0 < a"
    by (simp add: q zero_less_divide_iff)
  note ba = bitlen_powi_bounds [OF a] and bb = bitlen_powi_bounds [OF b]
  have b': "(0::rat) < of_int b" using b by simp
  have upper: "q < 2 powi (d + 1)"
  proof -
    have "of_int a < (2::rat) powi bitlen a" by (rule ba(2))
    also have "\<dots> = 2 powi (d + 1) * 2 powi (bitlen b - 1)"
      by (simp add: d_def flip: power_int_add)
    also have "\<dots> \<le> 2 powi (d + 1) * of_int b"
      by (intro mult_left_mono bb(1)) simp
    finally show ?thesis using b' by (simp add: q pos_divide_less_eq)
  qed
  have lower: "2 powi (d - 1) < q"
  proof -
    have "2 powi (d - 1) * of_int b < 2 powi (d - 1) * (2::rat) powi bitlen b"
      by (intro mult_strict_left_mono bb(2)) simp
    also have "\<dots> = 2 powi (bitlen a - 1)"
      by (simp add: d_def flip: power_int_add)
    also have "\<dots> \<le> of_int a" by (rule ba(1))
    finally show ?thesis using b' by (simp add: q pos_less_divide_eq)
  qed
  have il: "ilog2 q = (if 2 powi d \<le> q then d else d - 1)"
    by (simp add: ilog2_def Let_def a_def b_def d_def)
  show "2 powi ilog2 q \<le> q"
    using lower by (simp add: il)
  show "q < 2 powi (ilog2 q + 1)"
    using upper by (simp add: il not_le)
qed

lemma ilog2_unique:
  assumes "2 powi e \<le> q" and "q < 2 powi (e + 1)"
  shows "ilog2 q = e"
proof -
  have pos: "0 < q"
    using assms(1) zero_less_power_int [of "2::rat" e] by linarith
  note b = ilog2_bounds [OF pos]
  have "(2::rat) powi e < 2 powi (ilog2 q + 1)"
    using assms(1) b(2) by linarith
  then have "e < ilog2 q + 1"
    by (metis power_int_increasing less_le_not_le linorder_not_less one_le_numeral)
  moreover have "(2::rat) powi ilog2 q < 2 powi (e + 1)"
    using assms(2) b(1) by linarith
  then have "ilog2 q < e + 1"
    by (metis power_int_increasing less_le_not_le linorder_not_less one_le_numeral)
  ultimately show ?thesis by linarith
qed

lemma round_half_even_ge:
  assumes "of_int j \<le> x"
  shows "j \<le> round_half_even x"
proof -
  from assms have "j \<le> \<lfloor>x\<rfloor>" by (simp add: le_floor_iff)
  then show ?thesis by (auto simp: round_half_even_def Let_def)
qed

lemma round_half_even_le:
  assumes "x \<le> of_int j"
  shows "round_half_even x \<le> j"
proof (cases "x = of_int j")
  case True
  then show ?thesis by (simp add: round_half_even_def Let_def)
next
  case False
  with assms have "x < of_int j" by simp
  then have "\<lfloor>x\<rfloor> < j" by (simp add: floor_less_iff)
  then show ?thesis by (auto simp: round_half_even_def Let_def)
qed

lemma round_half_even_near:
  assumes "\<bar>x - of_int j\<bar> < 1 / 2"
  shows "round_half_even x = j"
proof (cases "of_int j \<le> x")
  case True
  with assms have "x < of_int j + 1 / 2" by linarith
  with True have fl: "\<lfloor>x\<rfloor> = j" by (simp add: floor_unique)
  with assms True show ?thesis by (simp add: round_half_even_def Let_def)
next
  case False
  with assms have lo: "of_int j - 1 / 2 < x" and hi: "x < of_int j" by linarith+
  then have fl: "\<lfloor>x\<rfloor> = j - 1" by (intro floor_unique) simp_all
  with lo show ?thesis by (simp add: round_half_even_def Let_def)
qed

lemma round53_pos:
  assumes "0 < q"
  shows "round53 q = of_int (round_half_even (q / 2 powi (ilog2 q - 52))) * 2 powi (ilog2 q - 52)"
  using assms by (simp add: round53_def Let_def)

text \<open>
  A positive \<open>q\<close> below \<open>2^E\<close> is rounded on a grid that contains every multiple
  of \<open>2^(E - 53)\<close>, so rounding cannot cross such a multiple.
\<close>

lemma grid_multiple:
  assumes "0 < q" and "q < 2 powi E"
  shows "\<exists>k::int. 0 < k \<and> (2::rat) powi (E - 53) = of_int k * 2 powi (ilog2 q - 52)"
proof -
  from ilog2_bounds(1) [OF assms(1)] assms(2) have "(2::rat) powi ilog2 q < 2 powi E" by linarith
  then have lt: "ilog2 q < E"
    by (metis power_int_increasing less_le_not_le linorder_not_less one_le_numeral)
  define m where "m = nat (E - ilog2 q - 1)"
  have "(2::rat) powi (E - 53) = 2 powi (int m) * 2 powi (ilog2 q - 52)"
    using lt by (simp add: m_def flip: power_int_add)
  also have "(2::rat) powi (int m) = of_int (2 ^ m)"
    by (simp add: power_int_def)
  finally have "(2::rat) powi (E - 53) = of_int (2 ^ m) * 2 powi (ilog2 q - 52)" .
  moreover have "(0::int) < 2 ^ m" by simp
  ultimately show ?thesis by blast
qed

lemma round53_lower:
  assumes "0 < q" and "q < 2 powi E" and "of_int j * 2 powi (E - 53) \<le> q"
  shows "of_int j * 2 powi (E - 53) \<le> round53 q"
proof -
  define u :: rat where "u = 2 powi (ilog2 q - 52)"
  have u: "0 < u" by (simp add: u_def)
  from grid_multiple [OF assms(1,2)] obtain k :: int where
    k: "(2::rat) powi (E - 53) = of_int k * u" by (auto simp: u_def)
  from assms(3) have "of_int (j * k) * u \<le> q" by (simp add: k mult.assoc)
  with u have "of_int (j * k) \<le> q / u" by (simp add: pos_le_divide_eq)
  then have "j * k \<le> round_half_even (q / u)" by (rule round_half_even_ge)
  then have "(of_int (j * k) :: rat) \<le> of_int (round_half_even (q / u))"
    by (simp only: of_int_le_iff)
  with u have "of_int (j * k) * u \<le> of_int (round_half_even (q / u)) * u"
    by (simp add: mult_right_mono)
  then show ?thesis
    by (simp add: round53_pos [OF assms(1)] k mult.assoc flip: u_def)
qed

lemma round53_upper:
  assumes "0 < q" and "q < 2 powi E" and "q \<le> of_int j * 2 powi (E - 53)"
  shows "round53 q \<le> of_int j * 2 powi (E - 53)"
proof -
  define u :: rat where "u = 2 powi (ilog2 q - 52)"
  have u: "0 < u" by (simp add: u_def)
  from grid_multiple [OF assms(1,2)] obtain k :: int where
    k: "(2::rat) powi (E - 53) = of_int k * u" by (auto simp: u_def)
  from assms(3) have "q \<le> of_int (j * k) * u" by (simp add: k mult.assoc)
  with u have "q / u \<le> of_int (j * k)" by (simp add: pos_divide_le_eq)
  then have "round_half_even (q / u) \<le> j * k" by (rule round_half_even_le)
  then have "(of_int (round_half_even (q / u)) :: rat) \<le> of_int (j * k)"
    by (simp only: of_int_le_iff)
  with u have "of_int (round_half_even (q / u)) * u \<le> of_int (j * k) * u"
    by (simp add: mult_right_mono)
  then show ?thesis
    by (simp add: round53_pos [OF assms(1)] k mult.assoc flip: u_def)
qed

text \<open>An int below \<open>2^53\<close> in absolute value converts exactly.\<close>

lemma float_of_int_exact:
  assumes "0 \<le> n" and "n < 2 ^ 53"
  shows "float_of_int n = of_int n"
proof (cases "n = 0")
  case True
  then show ?thesis by (simp add: float_of_int_def round53_def)
next
  case False
  with assms have pos: "(0::rat) < of_int n" by simp
  from assms(2) have "(of_int n :: rat) < of_int (2 ^ 53)" by (simp only: of_int_less_iff)
  then have lt: "(of_int n :: rat) < 2 powi 53" by (simp add: power_int_def)
  from round53_lower [OF pos lt, of n] round53_upper [OF pos lt, of n]
  show ?thesis by (simp add: float_of_int_def)
qed

lemma int_of_float_between:
  assumes "of_int F \<le> x" and "x \<le> of_int F + 127 / 128" and "0 \<le> F"
  shows "int_of_float x = F"
proof -
  from assms(1,3) have "0 \<le> x"
    by (metis of_int_0_le_iff order_trans)
  moreover from assms(1,2) have "\<lfloor>x\<rfloor> = F"
    by (intro floor_unique) simp_all
  ultimately show ?thesis by (simp add: int_of_float_def)
qed

lemma round53_between:
  assumes "0 < q" and "q < 2 powi 46"
    and "of_int F \<le> q" and "q \<le> of_int F + 127 / 128"
  shows "of_int F \<le> round53 q \<and> round53 q \<le> of_int F + 127 / 128"
proof -
  have g: "(2::rat) powi (46 - 53) = 1 / 128"
    by (simp add: power_int_def power_divide)
  have lo: "of_int (F * 128) * (2::rat) powi (46 - 53) = of_int F"
    by (simp add: g)
  have hi: "of_int (F * 128 + 127) * (2::rat) powi (46 - 53) = of_int F + 127 / 128"
    by (simp add: g field_simps)
  from round53_lower [OF assms(1,2), of "F * 128"] assms(3)
  have "of_int F \<le> round53 q" by (simp only: lo)
  moreover from round53_upper [OF assms(1,2), of "F * 128 + 127"] assms(4)
  have "round53 q \<le> of_int F + 127 / 128" by (simp only: hi)
  ultimately show ?thesis ..
qed

lemma round53_near_int:
  assumes "0 < q" and "q < 2 powi 53" and "q \<le> of_int F"
    and "of_int F - q \<le> q * 2 powi (- 54)"
  shows "round53 q = of_int F"
proof -
  define e where "e = ilog2 q"
  define u :: rat where "u = 2 powi (e - 52)"
  have u: "0 < u" by (simp add: u_def)
  note b = ilog2_bounds [OF assms(1), folded e_def]
  from grid_multiple [OF assms(1,2)] obtain k :: int where
    k: "(1::rat) = of_int k * u" by (auto simp: u_def e_def)
  have Fu: "of_int F / u = of_int (F * k)"
  proof -
    have "of_int F = of_int (F * k) * u"
      using k by (simp add: mult.assoc flip: k)
    then show ?thesis using u by (simp add: field_simps)
  qed
  have "q * 2 powi (- 54) < 2 powi (e + 1) * 2 powi (- 54)"
    using b(2) by (intro mult_strict_right_mono) simp_all
  also have "\<dots> = u / 2"
    unfolding u_def by (simp add: power_int_diff power_int_add power_int_minus field_simps)
  finally have "of_int F - q < u / 2" using assms(4) by linarith
  with assms(3) have "\<bar>q - of_int F\<bar> < u / 2" by linarith
  then have "\<bar>q / u - of_int F / u\<bar> < 1 / 2"
    using u by (simp add: field_simps abs_if split: if_splits)
  then have "round_half_even (q / u) = F * k"
    unfolding Fu by (rule round_half_even_near)
  then have "round53 q = of_int (F * k) * u"
    by (simp add: round53_pos [OF assms(1)] u_def e_def)
  also have "\<dots> = of_int F"
    using k by (simp add: mult.assoc flip: k)
  finally show ?thesis .
qed

lemma percent_floor_bounds:
  fixes n p :: int
  shows "of_int ((n * p) div 100) \<le> (of_int n * (of_int p / 100) :: rat)"
    and "(of_int n * (of_int p / 100) :: rat) \<le> of_int ((n * p) div 100) + 99 / 100"
    and "(n * p) mod 100 \<noteq> 0 \<Longrightarrow>
           of_int ((n * p) div 100) + 1 / 100 \<le> (of_int n * (of_int p / 100) :: rat)"
    and "(n * p) mod 100 = 0 \<Longrightarrow>
           (of_int n * (of_int p / 100) :: rat) = of_int ((n * p) div 100)"
proof -
  define m where "m = n * p"
  have split: "m = 100 * (m div 100) + m mod 100" by simp
  have r: "(of_int n * (of_int p / 100) :: rat) = of_int m / 100"
    by (simp add: m_def)
  have "(of_int m :: rat) = 100 * of_int (m div 100) + of_int (m mod 100)"
    by (subst split) (simp only: of_int_add of_int_mult of_int_numeral)
  then have eq: "(of_int m / 100 :: rat) = of_int (m div 100) + of_int (m mod 100) / 100"
    by (simp add: field_simps)
  have lo: "0 \<le> m mod 100" and hi: "m mod 100 \<le> 99"
    using pos_mod_bound [of 100 m] by simp_all
  from lo have lo': "(0::rat) \<le> of_int (m mod 100)" by simp
  from hi have "(of_int (m mod 100) :: rat) \<le> of_int 99" by (simp only: of_int_le_iff)
  then have hi': "(of_int (m mod 100) :: rat) \<le> 99" by simp
  show "of_int ((n * p) div 100) \<le> (of_int n * (of_int p / 100) :: rat)"
    unfolding r eq using lo' by (simp add: m_def)
  show "(of_int n * (of_int p / 100) :: rat) \<le> of_int ((n * p) div 100) + 99 / 100"
    unfolding r eq using hi' by (simp add: m_def)
  show "of_int ((n * p) div 100) + 1 / 100 \<le> (of_int n * (of_int p / 100) :: rat)"
    if "(n * p) mod 100 \<noteq> 0"
  proof -
    from that lo have "1 \<le> m mod 100" by (simp add: m_def)
    then have "(of_int 1 :: rat) \<le> of_int (m mod 100)" by (simp only: of_int_le_iff)
    then show ?thesis unfolding r eq by (simp add: m_def)
  qed
  show "(of_int n * (of_int p / 100) :: rat) = of_int ((n * p) div 100)"
    if "(n * p) mod 100 = 0"
    unfolding r eq using that by (simp add: m_def)
qed

text \<open>
  A rate \<open>c\<close> that is the float nearest to \<open>p / 100\<close> and not below it: for every
  amount below \<open>2^46\<close> the float product truncates to the exact floor.
\<close>

lemma int_times_float_rate_up:
  assumes n: "0 \<le> n" "n < 2 ^ 46"
    and p: "0 \<le> p"
    and c: "of_int p / 100 \<le> c" "c \<le> 1" "(c - of_int p / 100) * 2 ^ 46 \<le> 7 / 3200"
  shows "int_times_float n c = (n * p) div 100"
proof -
  define F where "F = (n * p) div 100"
  define q where "q = of_int n * c"
  from n have exact: "float_of_int n = of_int n"
    by (intro float_of_int_exact) simp_all
  have F0: "0 \<le> F"
    using n(1) p by (simp add: F_def pos_imp_zdiv_nonneg_iff)
  have c0: "0 \<le> c" using p c(1) by (meson divide_nonneg_pos of_int_0_le_iff order_trans zero_less_numeral)
  have n0: "(0::rat) \<le> of_int n" using n(1) by simp
  from n(2) have "(of_int n :: rat) < of_int (2 ^ 46)" by (simp only: of_int_less_iff)
  then have nlt: "(of_int n :: rat) < 2 ^ 46" by simp
  have lower: "of_int F \<le> q"
  proof -
    have "of_int F \<le> of_int n * (of_int p / 100 :: rat)"
      unfolding F_def by (rule percent_floor_bounds(1))
    also have "\<dots> \<le> q" unfolding q_def using n0 c(1) by (rule mult_left_mono [rotated])
    finally show ?thesis .
  qed
  have upper: "q \<le> of_int F + 127 / 128"
  proof -
    have "q = of_int n * (of_int p / 100) + of_int n * (c - of_int p / 100)"
      by (simp add: q_def algebra_simps)
    also have "of_int n * (of_int p / 100 :: rat) \<le> of_int F + 99 / 100"
      unfolding F_def by (rule percent_floor_bounds(2))
    also have "of_int n * (c - of_int p / 100) \<le> 2 ^ 46 * (c - of_int p / 100)"
      using nlt c(1) by (intro mult_right_mono) simp_all
    also have "\<dots> \<le> 7 / 3200" using c(3) by (simp add: mult.commute)
    finally show ?thesis by simp
  qed
  show ?thesis
  proof (cases "q = 0")
    case True
    with lower F0 have "F = 0" by simp
    with True show ?thesis
      by (simp add: int_times_float_def float_mul_def exact int_of_float_def round53_def
            flip: q_def F_def)
  next
    case False
    with n0 c0 have qpos: "0 < q"
      by (simp add: q_def less_le)
    have "q \<le> of_int n * 1" unfolding q_def using n0 c(2) by (rule mult_left_mono [rotated])
    with nlt have qlt: "q < 2 powi 46" by (simp add: power_int_def)
    from round53_between [OF qpos qlt lower upper]
    have "int_of_float (round53 q) = F"
      using F0 by (intro int_of_float_between) simp_all
    then show ?thesis
      by (simp add: int_times_float_def float_mul_def exact flip: q_def F_def)
  qed
qed

text \<open>
  A rate \<open>c\<close> that is the float nearest to \<open>p / 100\<close> and below it: the product
  still truncates to the exact floor, because where \<open>n * p / 100\<close> is an integer
  the product rounds up to it.
\<close>

lemma int_times_float_rate_down:
  assumes n: "0 \<le> n" "n < 2 ^ 46"
    and p: "0 \<le> p" "p \<le> 100"
    and c: "0 < c" "c \<le> of_int p / 100"
      "of_int p / 100 - c \<le> c * 2 powi (- 54)"
      "(of_int p / 100 - c) * 2 ^ 46 \<le> 1 / 100"
  shows "int_times_float n c = (n * p) div 100"
proof -
  define F where "F = (n * p) div 100"
  define r :: rat where "r = of_int p / 100"
  define q where "q = of_int n * c"
  from n have exact: "float_of_int n = of_int n"
    by (intro float_of_int_exact) simp_all
  have F0: "0 \<le> F"
    using n(1) p(1) by (simp add: F_def pos_imp_zdiv_nonneg_iff)
  have n0: "(0::rat) \<le> of_int n" using n(1) by simp
  from n(2) have "(of_int n :: rat) < of_int (2 ^ 46)" by (simp only: of_int_less_iff)
  then have nlt: "(of_int n :: rat) < 2 ^ 46" by simp
  from p(2) have "(of_int p :: rat) \<le> of_int 100" by (simp only: of_int_le_iff)
  then have r1: "r \<le> 1" by (simp add: r_def)
  have qr: "q \<le> of_int n * r"
    unfolding q_def r_def using n0 c(2) by (rule mult_left_mono [rotated])
  have goal: "int_of_float (round53 q) = F"
  proof (cases "n = 0")
    case True
    then show ?thesis by (simp add: q_def F_def round53_def int_of_float_def)
  next
    case False
    with n(1) have npos: "(0::rat) < of_int n" by simp
    with c(1) have qpos: "0 < q" by (simp add: q_def)
    have "q \<le> of_int n * 1"
      using qr r1 n0 by (meson mult_left_mono order_trans)
    with nlt have qlt46: "q < 2 powi 46" by (simp add: power_int_def)
    show ?thesis
    proof (cases "(n * p) mod 100 = 0")
      case True
      then have nr: "of_int n * r = of_int F"
        unfolding r_def F_def by (rule percent_floor_bounds(4))
      have "(2::rat) powi 46 \<le> 2 powi 53"
        by (intro power_int_increasing) simp_all
      with qlt46 have qlt53: "q < 2 powi 53" by linarith
      have "of_int F - q = of_int n * (r - c)"
        by (simp add: q_def algebra_simps flip: nr)
      also have "\<dots> \<le> of_int n * (c * 2 powi (- 54))"
        using n0 c(3) unfolding r_def by (rule mult_left_mono [rotated])
      also have "\<dots> = q * 2 powi (- 54)" by (simp add: q_def)
      finally have near: "of_int F - q \<le> q * 2 powi (- 54)" .
      from qr nr have "q \<le> of_int F" by simp
      from round53_near_int [OF qpos qlt53 this near] F0
      show ?thesis by (simp add: int_of_float_def)
    next
      case False
      then have "of_int F + 1 / 100 \<le> of_int n * r"
        unfolding r_def F_def by (rule percent_floor_bounds(3))
      moreover have "of_int n * (r - c) \<le> 2 ^ 46 * (r - c)"
        using nlt c(2) unfolding r_def by (intro mult_right_mono) simp_all
      moreover have "2 ^ 46 * (r - c) \<le> 1 / 100"
        using c(4) by (simp add: r_def mult.commute)
      moreover have "q = of_int n * r - of_int n * (r - c)"
        by (simp add: q_def algebra_simps)
      ultimately have lower: "of_int F \<le> q" by linarith
      have "of_int n * r \<le> of_int F + 99 / 100"
        unfolding r_def F_def by (rule percent_floor_bounds(2))
      with qr have upper: "q \<le> of_int F + 127 / 128" by linarith
      from round53_between [OF qpos qlt46 lower upper]
      show ?thesis using F0 by (intro int_of_float_between) simp_all
    qed
  qed
  then show ?thesis
    by (simp add: int_times_float_def float_mul_def exact flip: q_def F_def)
qed

text \<open>The rate literals of the source, each as the binary64 number it denotes.\<close>

lemma float_lit_values:
  "float_lit (1 / 20) = 3602879701896397 / 72057594037927936"
  "float_lit (7 / 100) = 1261007895663739 / 18014398509481984"
  "float_lit (2 / 25) = 5764607523034235 / 72057594037927936"
  "float_lit (1 / 10) = 3602879701896397 / 36028797018963968"
  "float_lit (3 / 25) = 1080863910568919 / 9007199254740992"
  "float_lit (3 / 20) = 5404319552844595 / 36028797018963968"
  "float_lit (1 / 5) = 3602879701896397 / 18014398509481984"
  "float_lit (1 / 4) = 1 / 4"
  by code_simp+

text \<open>
  For every rate of the source and every amount from 0 up to (not including)
  \<open>2^46\<close>, \<^verbatim>\<open>int(n * rate)\<close> is the floor of the exact percentage.
\<close>

lemma int_times_float_percent:
  assumes "0 \<le> n" and "n < 2 ^ 46"
  shows "int_times_float n (float_lit (5 / 100)) = (n * 5) div 100"
    and "int_times_float n (float_lit (7 / 100)) = (n * 7) div 100"
    and "int_times_float n (float_lit (8 / 100)) = (n * 8) div 100"
    and "int_times_float n (float_lit (10 / 100)) = (n * 10) div 100"
    and "int_times_float n (float_lit (12 / 100)) = (n * 12) div 100"
    and "int_times_float n (float_lit (15 / 100)) = (n * 15) div 100"
    and "int_times_float n (float_lit (20 / 100)) = (n * 20) div 100"
    and "int_times_float n (float_lit (25 / 100)) = (n * 25) div 100"
proof -
  show "int_times_float n (float_lit (5 / 100)) = (n * 5) div 100"
    using assms by (intro int_times_float_rate_up) (simp_all add: float_lit_values)
  show "int_times_float n (float_lit (7 / 100)) = (n * 7) div 100"
    using assms by (intro int_times_float_rate_up) (simp_all add: float_lit_values)
  show "int_times_float n (float_lit (8 / 100)) = (n * 8) div 100"
    using assms by (intro int_times_float_rate_up) (simp_all add: float_lit_values)
  show "int_times_float n (float_lit (10 / 100)) = (n * 10) div 100"
    using assms by (intro int_times_float_rate_up) (simp_all add: float_lit_values)
  show "int_times_float n (float_lit (12 / 100)) = (n * 12) div 100"
    using assms
    by (intro int_times_float_rate_down) (simp_all add: float_lit_values power_int_minus)
  show "int_times_float n (float_lit (15 / 100)) = (n * 15) div 100"
    using assms
    by (intro int_times_float_rate_down) (simp_all add: float_lit_values power_int_minus)
  show "int_times_float n (float_lit (20 / 100)) = (n * 20) div 100"
    using assms by (intro int_times_float_rate_up) (simp_all add: float_lit_values)
  show "int_times_float n (float_lit (25 / 100)) = (n * 25) div 100"
    using assms by (intro int_times_float_rate_up) (simp_all add: float_lit_values)
qed

section \<open>Discount amounts\<close>

lemma floor_percent:
  "\<lfloor>of_int n * (of_int p / 100 :: rat)\<rfloor> = (n * p) div 100"
proof (rule floor_unique)
  show "of_int ((n * p) div 100) \<le> (of_int n * (of_int p / 100) :: rat)"
    by (rule percent_floor_bounds(1))
  have "(of_int n * (of_int p / 100) :: rat) \<le> of_int ((n * p) div 100) + 99 / 100"
    by (rule percent_floor_bounds(2))
  then show "(of_int n * (of_int p / 100) :: rat) < of_int ((n * p) div 100) + 1"
    by linarith
qed

text \<open>
  For the rates of the source and a base from 0 up to (not including) \<open>2^46\<close>,
  the float computation \<^verbatim>\<open>int(base * rate)\<close> is the floor of base times the
  decimal rate.
\<close>

lemma int_times_float_floor:
  assumes "0 \<le> n" and "n < 2 ^ 46" and "p \<in> {5, 7, 8, 10, 12, 15, 20, 25}"
  shows "int_times_float n (float_lit (of_int p / 100)) = \<lfloor>of_int n * (of_int p / 100 :: rat)\<rfloor>"
proof -
  have "int_times_float n (float_lit (of_int p / 100)) = (n * p) div 100"
    using assms(3) int_times_float_percent [OF assms(1,2)]
    by (elim insertE emptyE) (simp_all only: of_int_numeral)
  then show ?thesis by (simp only: floor_percent)
qed

lemma float_lit_percent_range:
  assumes "p \<in> {5, 7, 8, 10, 12, 15, 20, 25}"
  shows "0 \<le> float_lit (of_int p / 100) \<and> float_lit (of_int p / 100) \<le> 1"
  using assms by (elim insertE emptyE) (simp_all add: float_lit_values)

lemma discount_detail_percent:
  assumes "0 \<le> n" and "n < 2 ^ 46" and "p \<in> {5, 7, 8, 10, 12, 15, 20, 25}"
  shows "DiscountDetail_init nm (int_times_float n (float_lit (of_int p / 100)))
           (float_lit (of_int p / 100))
         = Inr \<lparr>DiscountDetail.name = nm,
                DiscountDetail.amount = \<lfloor>of_int n * (of_int p / 100 :: rat)\<rfloor>,
                percentage = float_lit (of_int p / 100)\<rparr>"
proof -
  from float_lit_percent_range [OF assms(3)]
  have r: "0 \<le> float_lit (of_int p / 100)" "float_lit (of_int p / 100) \<le> 1" by simp_all
  from assms(1) r(1) have a: "0 \<le> int_times_float n (float_lit (of_int p / 100))"
    by (rule int_times_float_nonneg)
  have "DiscountDetail_init nm (int_times_float n (float_lit (of_int p / 100)))
           (float_lit (of_int p / 100))
         = Inr \<lparr>DiscountDetail.name = nm,
                DiscountDetail.amount = int_times_float n (float_lit (of_int p / 100)),
                percentage = float_lit (of_int p / 100)\<rparr>"
    by (rule DiscountDetail_init_ok [OF a r])
  then show ?thesis
    by (simp only: int_times_float_floor [OF assms])
qed

lemma default_strategy_discount:
  assumes sub: "0 \<le> calculate_subtotal c" "calculate_subtotal c < 2 ^ 46"
    and s: "s \<in> set (strategies DiscountService_default)"
    and app: "is_applicable today s c cust"
  shows "spec_percent today s cust \<in> {5, 7, 10, 15, 20, 25}
       \<and> (\<exists>nm. calculate_discount today s c cust
             = Inr \<lparr>DiscountDetail.name = nm,
                    DiscountDetail.amount
                      = \<lfloor>of_int (calculate_subtotal c) * spec_rate today s cust\<rfloor>,
                    percentage = float_lit (spec_rate today s cust)\<rparr>)"
proof -
  have detail: "DiscountDetail_init nm
                  (int_times_float (calculate_subtotal c) (float_lit (of_int p / 100)))
                  (float_lit (of_int p / 100))
                = Inr \<lparr>DiscountDetail.name = nm,
                       DiscountDetail.amount = \<lfloor>of_int (calculate_subtotal c) * (of_int p / 100 :: rat)\<rfloor>,
                       percentage = float_lit (of_int p / 100)\<rparr>"
    if "p \<in> {5, 7, 10, 15, 20, 25}" for nm p
    using that by (intro discount_detail_percent [OF sub]) auto
  from s consider (senior) "s = SeniorDiscountStrategy (float_lit (10 / 100)) 60"
    | (member) "s = MemberDiscountStrategy" | (day) "s = DayOfWeekDiscountStrategy"
    by (auto simp: DiscountService_default_def)
  then show ?thesis
  proof cases
    case senior
    have sp: "spec_percent today s cust = 10" by (simp add: senior)
    have "calculate_discount today s c cust
            = DiscountDetail_init ''Diskon Lansia''
                (int_times_float (calculate_subtotal c) (float_lit (of_int 10 / 100)))
                (float_lit (of_int 10 / 100))"
      using app by (simp add: senior Let_def)
    also note detail [of 10 "''Diskon Lansia''"]
    finally show ?thesis by (auto simp: spec_rate_def sp)
  next
    case member
    from app member obtain cu where cu: "cust = Some cu" and mem: "is_member cu"
      by (auto split: option.splits)
    define p where "p = spec_percent today s cust"
    have pset: "p \<in> {5, 7, 10, 15, 20, 25}"
      unfolding p_def member cu by (cases cu) auto
    have "\<exists>nm. calculate_discount today s c cust
            = DiscountDetail_init nm
                (int_times_float (calculate_subtotal c) (float_lit (of_int p / 100)))
                (float_lit (of_int p / 100))"
      unfolding p_def member cu using mem
      by (cases cu)
         (auto simp: Let_def tier_discounts_def calculate_tier_def)
    then obtain nm where "calculate_discount today s c cust
            = DiscountDetail_init nm
                (int_times_float (calculate_subtotal c) (float_lit (of_int p / 100)))
                (float_lit (of_int p / 100))" ..
    also note detail [OF pset, of nm]
    finally show ?thesis using pset by (auto simp: spec_rate_def p_def)
  next
    case day
    from app day have today: "today = 0 \<or> today = 5"
      by (auto simp: day_discounts_def)
    define p where "p = spec_percent today s cust"
    have pset: "p \<in> {5, 7, 10, 15, 20, 25}"
      unfolding p_def day using today by auto
    have "\<exists>nm. calculate_discount today s c cust
            = DiscountDetail_init nm
                (int_times_float (calculate_subtotal c) (float_lit (of_int p / 100)))
                (float_lit (of_int p / 100))"
      unfolding p_def day using today
      by (auto simp: Let_def day_discounts_def)
    then obtain nm where "calculate_discount today s c cust
            = DiscountDetail_init nm
                (int_times_float (calculate_subtotal c) (float_lit (of_int p / 100)))
                (float_lit (of_int p / 100))" ..
    also note detail [OF pset, of nm]
    finally show ?thesis using pset by (auto simp: spec_rate_def p_def)
  qed
qed

lemma sum_list_filter_le:
  "(\<And>x. x \<in> set xs \<Longrightarrow> (0::int) \<le> f x) \<Longrightarrow> sum_list (map f (filter P xs)) \<le> sum_list (map f xs)"
  by (induction xs) (auto intro: add_increasing)

lemma category_amount_le_subtotal:
  assumes "wf_cart c"
  shows "category_amount c cat \<le> calculate_subtotal c"
proof -
  have "calculate_subtotal c = sum_list (map get_total_price (map snd (items c)))"
    by (simp add: calculate_subtotal_def comp_def)
  moreover have "sum_list (map get_total_price (filter (\<lambda>item. kategori item = cat) (map snd (items c))))
                   \<le> sum_list (map get_total_price (map snd (items c)))"
    using assms
    by (intro sum_list_filter_le wf_item_total_price) (auto simp: wf_cart_def list_all_iff)
  ultimately show ?thesis by (simp add: category_amount_def category_items_def)
qed

lemma category_result_floor:
  assumes "wf_cart c" and "calculate_subtotal c < 2 ^ 46"
  shows "DiscountDetail.amount (category_result c cat)
           = \<lfloor>of_int (category_amount c cat) * (7 / 100 :: rat)\<rfloor>"
proof -
  have lo: "0 \<le> category_amount c cat" by (rule wf_cart_category_amount [OF assms(1)])
  have hi: "category_amount c cat < 2 ^ 46"
    using category_amount_le_subtotal [OF assms(1), of cat] assms(2) by linarith
  have "7 \<in> {5, 7, 8, 10, 12, 15, 20, 25 :: int}" by simp
  from int_times_float_floor [OF lo hi this] show ?thesis
    by (simp add: category_result_def)
qed

lemma category_is_applicable_iff:
  "category_is_applicable c
     \<longleftrightarrow> filter (\<lambda>cat. category_threshold cat \<le> category_quantity c cat)
           [MAKANAN, MINUMAN, KEBUTUHAN] \<noteq> []"
  using empty_category_quantity [of c MAKANAN] empty_category_quantity [of c MINUMAN]
    empty_category_quantity [of c KEBUTUHAN]
  by (auto simp: category_is_applicable_def category_rules_def get_category_totals_lookup
           Let_def split: if_splits)

lemma strategies_loop_sum:
  assumes "\<And>s. s \<in> set ss \<Longrightarrow> is_applicable today s c cust \<Longrightarrow>
             \<exists>d. calculate_discount today s c cust = Inr d \<and> DiscountDetail.amount d = f s \<and> 0 \<le> f s"
  shows "\<exists>ds. strategies_loop today ss c cust acc = Inr ds
          \<and> sum_list (map DiscountDetail.amount ds)
              = sum_list (map DiscountDetail.amount acc)
                + sum_list (map f (filter (\<lambda>s. is_applicable today s c cust) ss))"
  using assms
proof (induction ss arbitrary: acc)
  case Nil
  then show ?case by simp
next
  case (Cons s ss)
  have IH: "\<exists>ds. strategies_loop today ss c cust acc' = Inr ds
          \<and> sum_list (map DiscountDetail.amount ds)
              = sum_list (map DiscountDetail.amount acc')
                + sum_list (map f (filter (\<lambda>s. is_applicable today s c cust) ss))" for acc'
    using Cons.IH [of acc'] Cons.prems by simp
  show ?case
  proof (cases "is_applicable today s c cust")
    case False
    with IH [of acc] show ?thesis by simp
  next
    case True
    with Cons.prems [of s] obtain d where
      d: "calculate_discount today s c cust = Inr d" "DiscountDetail.amount d = f s" "0 \<le> f s"
      by auto
    show ?thesis
    proof (cases "0 < DiscountDetail.amount d")
      case pos: True
      with IH [of "acc @ [d]"] True d show ?thesis by (auto simp: add.assoc)
    next
      case False
      with d have "f s = 0" by simp
      with IH [of acc] True d False show ?thesis by simp
    qed
  qed
qed

text \<open>
  Claim C9, as amended. For the default strategies, a well-formed cart whose
  subtotal is below \<open>2^46\<close> (about \<open>7 * 10^13\<close>) and any customer: every
  strategy that applies returns a detail whose amount is the floor of the
  cart subtotal times the specification's rate for that strategy, a rate
  between 0 and 1; the category strategy returns, per qualifying category,
  the floor of 7 percent of that category's subtotal; and the total discount
  is the sum of these amounts over the strategies that apply and the
  categories that qualify.
\<close>

theorem C9_discount_amounts:
  assumes "wf_cart c" and "calculate_subtotal c < 2 ^ 46"
  shows "(\<forall>s \<in> set (strategies DiscountService_default).
            is_applicable today s c cust \<longrightarrow>
              0 \<le> spec_rate today s cust \<and> spec_rate today s cust \<le> 1
            \<and> (\<exists>nm. calculate_discount today s c cust
                  = Inr \<lparr>DiscountDetail.name = nm,
                         DiscountDetail.amount
                           = \<lfloor>of_int (calculate_subtotal c) * spec_rate today s cust\<rfloor>,
                         percentage = float_lit (spec_rate today s cust)\<rparr>))
       \<and> category_calculate_discount c
           = Inr (map (category_result c)
                   (filter (\<lambda>cat. category_threshold cat \<le> category_quantity c cat)
                      [MAKANAN, MINUMAN, KEBUTUHAN]))
       \<and> (\<forall>cat. DiscountDetail.amount (category_result c cat)
                   = \<lfloor>of_int (category_amount c cat) * (7 / 100 :: rat)\<rfloor>
                \<and> percentage (category_result c cat) = float_lit (7 / 100))
       \<and> (\<exists>ds. calculate_all_discounts today DiscountService_default c cust = Inr ds
             \<and> get_total_discount_amount today DiscountService_default c cust
                 = Inr (sum_list (map DiscountDetail.amount ds))
             \<and> sum_list (map DiscountDetail.amount ds)
                 = sum_list (map (\<lambda>s. \<lfloor>of_int (calculate_subtotal c) * spec_rate today s cust\<rfloor>)
                     (filter (\<lambda>s. is_applicable today s c cust)
                        (strategies DiscountService_default)))
                   + sum_list (map (\<lambda>cat. \<lfloor>of_int (category_amount c cat) * (7 / 100 :: rat)\<rfloor>)
                       (filter (\<lambda>cat. category_threshold cat \<le> category_quantity c cat)
                          [MAKANAN, MINUMAN, KEBUTUHAN])))"
proof -
  define sub where "sub = calculate_subtotal c"
  define amt where "amt = (\<lambda>s. \<lfloor>of_int sub * spec_rate today s cust\<rfloor>)"
  define qual where "qual = filter (\<lambda>cat. category_threshold cat \<le> category_quantity c cat)
                              [MAKANAN, MINUMAN, KEBUTUHAN]"
  have sub0: "0 \<le> sub" unfolding sub_def by (rule wf_cart_subtotal [OF assms(1)])
  have sub46: "sub < 2 ^ 46" unfolding sub_def by (rule assms(2))
  have strat: "spec_percent today s cust \<in> {5, 7, 10, 15, 20, 25}
       \<and> (\<exists>nm. calculate_discount today s c cust
             = Inr \<lparr>DiscountDetail.name = nm, DiscountDetail.amount = amt s,
                    percentage = float_lit (spec_rate today s cust)\<rparr>)"
    if "s \<in> set (strategies DiscountService_default)" "is_applicable today s c cust" for s
    using default_strategy_discount [OF sub0 [unfolded sub_def] assms(2) that]
    by (simp add: amt_def sub_def)
  have rate: "0 \<le> spec_rate today s cust \<and> spec_rate today s cust \<le> 1"
    if "s \<in> set (strategies DiscountService_default)" "is_applicable today s c cust" for s
    using strat [OF that] by (auto simp: spec_rate_def)
  have amt0: "0 \<le> amt s"
    if "s \<in> set (strategies DiscountService_default)" "is_applicable today s c cust" for s
    unfolding amt_def using rate [OF that] sub0 by simp
  have part1: "\<forall>s \<in> set (strategies DiscountService_default).
            is_applicable today s c cust \<longrightarrow>
              0 \<le> spec_rate today s cust \<and> spec_rate today s cust \<le> 1
            \<and> (\<exists>nm. calculate_discount today s c cust
                  = Inr \<lparr>DiscountDetail.name = nm, DiscountDetail.amount = amt s,
                         percentage = float_lit (spec_rate today s cust)\<rparr>)"
    using strat rate by blast
  have part2: "category_calculate_discount c = Inr (map (category_result c) qual)"
    unfolding qual_def by (rule category_calculate_discount_eq [OF assms(1)])
  have part3: "\<forall>cat. DiscountDetail.amount (category_result c cat)
                   = \<lfloor>of_int (category_amount c cat) * (7 / 100 :: rat)\<rfloor>
                \<and> percentage (category_result c cat) = float_lit (7 / 100)"
    using category_result_floor [OF assms] by (simp add: category_result_def)
  have "\<exists>d. calculate_discount today s c cust = Inr d \<and> DiscountDetail.amount d = amt s \<and> 0 \<le> amt s"
    if "s \<in> set (strategies DiscountService_default)" "is_applicable today s c cust" for s
    using strat [OF that] amt0 [OF that] by auto
  from strategies_loop_sum [of "strategies DiscountService_default" today c cust amt "[]", OF this]
  obtain ds0 where
    loop: "strategies_loop today (strategies DiscountService_default) c cust [] = Inr ds0" and
    sum0: "sum_list (map DiscountDetail.amount ds0)
             = sum_list (map amt (filter (\<lambda>s. is_applicable today s c cust)
                                    (strategies DiscountService_default)))"
    by auto
  define ds where "ds = ds0 @ map (category_result c) qual"
  have all: "calculate_all_discounts today DiscountService_default c cust = Inr ds"
  proof (cases "category_is_applicable c")
    case True
    then show ?thesis by (simp add: calculate_all_discounts_def loop part2 ds_def)
  next
    case False
    then have "qual = []" by (simp add: category_is_applicable_iff qual_def)
    with False show ?thesis by (simp add: calculate_all_discounts_def loop ds_def)
  qed
  have total: "get_total_discount_amount today DiscountService_default c cust
                 = Inr (sum_list (map DiscountDetail.amount ds))"
    by (simp add: get_total_discount_amount_def all)
  have "sum_list (map DiscountDetail.amount (map (category_result c) qual))
          = sum_list (map (\<lambda>cat. \<lfloor>of_int (category_amount c cat) * (7 / 100 :: rat)\<rfloor>) qual)"
    using part3 by (simp add: comp_def)
  then have sum: "sum_list (map DiscountDetail.amount ds)
      = sum_list (map amt (filter (\<lambda>s. is_applicable today s c cust)
                             (strategies DiscountService_default)))
        + sum_list (map (\<lambda>cat. \<lfloor>of_int (category_amount c cat) * (7 / 100 :: rat)\<rfloor>) qual)"
    by (simp add: ds_def sum0)
  from part1 part2 part3 all total sum show ?thesis
    unfolding amt_def qual_def sub_def by blast
qed

lemma cart_mixed_facts:
  "wf_cart cart_mixed" "calculate_subtotal cart_mixed = 75000"
  "is_applicable 0 DayOfWeekDiscountStrategy cart_mixed (Some budi)"
  "DayOfWeekDiscountStrategy \<in> set (strategies DiscountService_default)"
  "spec_rate 0 DayOfWeekDiscountStrategy (Some budi) = 15 / 100"
  "filter (\<lambda>s. is_applicable 0 s cart_mixed (Some budi)) (strategies DiscountService_default)
     = [DayOfWeekDiscountStrategy]"
  "filter (\<lambda>cat. category_threshold cat \<le> category_quantity cart_mixed cat)
     [MAKANAN, MINUMAN, KEBUTUHAN] = [MAKANAN, KEBUTUHAN]"
  "category_amount cart_mixed MAKANAN = 45000" "category_amount cart_mixed KEBUTUHAN = 20000"
  by code_simp+

theorem C9_discount_amounts_witness:
  "wf_cart cart_mixed \<and> calculate_subtotal cart_mixed < 2 ^ 46
   \<and> is_applicable 0 DayOfWeekDiscountStrategy cart_mixed (Some budi)
   \<and> (\<exists>nm. calculate_discount 0 DayOfWeekDiscountStrategy cart_mixed (Some budi)
         = Inr \<lparr>DiscountDetail.name = nm, DiscountDetail.amount = 11250,
                percentage = float_lit (15 / 100)\<rparr>)
   \<and> DiscountDetail.amount (category_result cart_mixed MAKANAN) = 3150
   \<and> DiscountDetail.amount (category_result cart_mixed KEBUTUHAN) = 1400
   \<and> get_total_discount_amount 0 DiscountService_default cart_mixed (Some budi) = Inr 15800"
proof -
  have small: "calculate_subtotal cart_mixed < 2 ^ 46"
    by (simp add: cart_mixed_facts)
  note inst = C9_discount_amounts [OF cart_mixed_facts(1) small, of 0 "Some budi"]
  from inst [THEN conjunct1, THEN bspec, OF cart_mixed_facts(4), THEN mp, OF cart_mixed_facts(3)]
  have day: "\<exists>nm. calculate_discount 0 DayOfWeekDiscountStrategy cart_mixed (Some budi)
         = Inr \<lparr>DiscountDetail.name = nm, DiscountDetail.amount = 11250,
                percentage = float_lit (15 / 100)\<rparr>"
    by (simp add: cart_mixed_facts)
  from inst [THEN conjunct2, THEN conjunct2, THEN conjunct1]
  have cat: "DiscountDetail.amount (category_result cart_mixed MAKANAN) = 3150"
    "DiscountDetail.amount (category_result cart_mixed KEBUTUHAN) = 1400"
    by (simp_all add: cart_mixed_facts)
  from inst [THEN conjunct2, THEN conjunct2, THEN conjunct2]
  obtain ds :: "DiscountDetail list" where
    tot: "get_total_discount_amount 0 DiscountService_default cart_mixed (Some budi)
            = Inr (sum_list (map DiscountDetail.amount ds))" and
    sum: "sum_list (map DiscountDetail.amount ds)
            = sum_list (map (\<lambda>s. \<lfloor>of_int (calculate_subtotal cart_mixed) * spec_rate 0 s (Some budi)\<rfloor>)
                [DayOfWeekDiscountStrategy])
              + sum_list (map (\<lambda>cat. \<lfloor>of_int (category_amount cart_mixed cat) * (7 / 100 :: rat)\<rfloor>)
                  [MAKANAN, KEBUTUHAN])"
    unfolding cart_mixed_facts(6,7) by blast
  from sum have "sum_list (map DiscountDetail.amount ds) = 15800"
    by (simp add: cart_mixed_facts)
  with tot have "get_total_discount_amount 0 DiscountService_default cart_mixed (Some budi) = Inr 15800"
    by simp
  with small day cat cart_mixed_facts(1,3) show ?thesis by blast
qed

text \<open>
  Without the bound the claim fails: rates are binary floats and the product
  is rounded to 53 bits. For a Bronze member and a subtotal of \<open>10^17\<close> the
  member discount is \<^verbatim>\<open>int(10**17 * 0.07) = 7000000000000001\<close>, one more than
  the floor of 7 percent.
\<close>

theorem C9_large_base_counterexample:
  "wf_cart cart_huge
   \<and> is_applicable 2 MemberDiscountStrategy cart_huge (Some bronze)
   \<and> calculate_subtotal cart_huge = 100000000000000000
   \<and> calculate_discount 2 MemberDiscountStrategy cart_huge (Some bronze)
       = Inr \<lparr>DiscountDetail.name = ''Diskon Member Bronze'',
              DiscountDetail.amount = 7000000000000001,
              percentage = float_lit (7 / 100)\<rparr>
   \<and> \<lfloor>of_int (calculate_subtotal cart_huge) * (7 / 100 :: rat)\<rfloor> = 7000000000000000"
  by code_simp

section \<open>Validation and creation of a transaction\<close>






















end
